theory Spec2Isabelle
  imports
    Complex_Main
    "HOL-Library.AList"
    "HOL-Library.Char_ord"
    "HOL-Library.List_Lexorder"
    "HOL-Library.Multiset"
begin

section \<open>Inertial property estimation for the Shadow Hand: the script as a HOL program\<close>

text \<open>
  The development embeds \<^verbatim>\<open>scripts/estimate_inertial_properties.py\<close>. Python floats are
  read as rationals (\<^typ>\<open>rat\<close>): rounding is not part of the model. A division of two
  Python floats raises on a zero divisor; a division in which a numpy float takes part
  returns an infinity or a NaN instead, so the values computed from the mesh volumes range
  over the rationals extended by these. The mesh library (trimesh) and the SDF library
  (pcg_gazebo) appear through the values the script reads from them and the fields it
  sets on them.
\<close>

subsection \<open>Exceptions and console output\<close>

datatype py_error =
    ValueError
  | OSError
  | LoadError
  | ZeroDivisionError
  | UnboundLocalError
  | KeyError
  | AssertionError
  | SystemExit nat

subsection \<open>Numbers\<close>

text \<open>
  A \<^verbatim>\<open>numpy.float64\<close>: a finite value, an infinity or a NaN. The volume of a mesh is
  such a number, so every value computed from a volume is one as well, and its arithmetic
  never raises. The only zeros that become divisors in the script are the total volume and
  \<^verbatim>\<open>1 - forearm_volume_proportion\<close>, both positive zeros, so a zero divisor is read as
  \<open>+0.0\<close>.
\<close>

datatype npfloat = Fin rat | PInf | NInf | NaN

fun np_neg :: "npfloat \<Rightarrow> npfloat" where
  "np_neg (Fin a) = Fin (- a)"
| "np_neg PInf = NInf"
| "np_neg NInf = PInf"
| "np_neg NaN = NaN"

fun np_add :: "npfloat \<Rightarrow> npfloat \<Rightarrow> npfloat" where
  "np_add (Fin a) (Fin b) = Fin (a + b)"
| "np_add NaN y = NaN"
| "np_add x NaN = NaN"
| "np_add PInf NInf = NaN"
| "np_add NInf PInf = NaN"
| "np_add PInf y = PInf"
| "np_add x PInf = PInf"
| "np_add NInf y = NInf"
| "np_add x NInf = NInf"

definition np_sub :: "npfloat \<Rightarrow> npfloat \<Rightarrow> npfloat" where
  "np_sub x y = np_add x (np_neg y)"

fun np_mul :: "npfloat \<Rightarrow> npfloat \<Rightarrow> npfloat" where
  "np_mul (Fin a) (Fin b) = Fin (a * b)"
| "np_mul NaN y = NaN"
| "np_mul x NaN = NaN"
| "np_mul PInf (Fin b) = (if 0 < b then PInf else if b < 0 then NInf else NaN)"
| "np_mul NInf (Fin b) = (if 0 < b then NInf else if b < 0 then PInf else NaN)"
| "np_mul (Fin a) PInf = (if 0 < a then PInf else if a < 0 then NInf else NaN)"
| "np_mul (Fin a) NInf = (if 0 < a then NInf else if a < 0 then PInf else NaN)"
| "np_mul PInf PInf = PInf"
| "np_mul PInf NInf = NInf"
| "np_mul NInf PInf = NInf"
| "np_mul NInf NInf = PInf"

fun np_div :: "npfloat \<Rightarrow> npfloat \<Rightarrow> npfloat" where
  "np_div (Fin a) (Fin b) =
     (if b = 0 then (if 0 < a then PInf else if a < 0 then NInf else NaN) else Fin (a / b))"
| "np_div NaN y = NaN"
| "np_div x NaN = NaN"
| "np_div (Fin a) PInf = Fin 0"
| "np_div (Fin a) NInf = Fin 0"
| "np_div PInf (Fin b) = (if b < 0 then NInf else PInf)"
| "np_div NInf (Fin b) = (if b < 0 then PInf else NInf)"
| "np_div PInf PInf = NaN"
| "np_div PInf NInf = NaN"
| "np_div NInf PInf = NaN"
| "np_div NInf NInf = NaN"

text \<open>The comparison \<^verbatim>\<open>x <= y\<close>: false whenever a NaN takes part.\<close>

fun np_le :: "npfloat \<Rightarrow> npfloat \<Rightarrow> bool" where
  "np_le (Fin a) (Fin b) = (a \<le> b)"
| "np_le NaN y = False"
| "np_le x NaN = False"
| "np_le NInf y = True"
| "np_le x PInf = True"
| "np_le PInf y = False"
| "np_le x NInf = False"

text \<open>One constructor per \<^verbatim>\<open>print\<close> call of the script, in the order of the source.\<close>

datatype out_line =
    ErrorTotalMassPositive
  | Estimating rat
  | VolumeEstimate string rat
  | NoteFourTimes string
  | AverageDensityEstimate npfloat
  | TotalMassLine npfloat
  | ResultsWritten string

subsection \<open>Strings and paths\<close>

text \<open>Python's \<^verbatim>\<open>sub in s\<close> on strings: \<open>sub\<close> occurs in \<open>s\<close> as a contiguous block.\<close>

fun str_in :: "string \<Rightarrow> string \<Rightarrow> bool" where
  "str_in sub [] = (sub = [])"
| "str_in sub (c # cs) = (take (length sub) (c # cs) = sub \<or> str_in sub cs)"

text \<open>\<^verbatim>\<open>str.rfind\<close> for one character: the highest index holding it, \<open>-1\<close> when absent.\<close>

fun rfind_from :: "char \<Rightarrow> string \<Rightarrow> int \<Rightarrow> int \<Rightarrow> int" where
  "rfind_from c [] i found = found"
| "rfind_from c (x # xs) i found = rfind_from c xs (i + 1) (if x = c then i else found)"

definition rfind :: "char \<Rightarrow> string \<Rightarrow> int" where
  "rfind c s = rfind_from c s 0 (- 1)"

text \<open>
  \<^verbatim>\<open>posixpath.splitext\<close>: the extension starts at the last dot of the last path
  component, unless only dots precede that dot in the component.
\<close>

definition splitext :: "string \<Rightarrow> string \<times> string" where
  "splitext p =
     (let sepIndex = rfind (CHR ''/'') p;
          dotIndex = rfind (CHR ''.'') p
      in if dotIndex > sepIndex \<and>
            list_ex (\<lambda>ch. ch \<noteq> CHR ''.'')
              (take (nat (dotIndex - (sepIndex + 1))) (drop (nat (sepIndex + 1)) p))
         then (take (nat dotIndex) p, drop (nat dotIndex) p)
         else (p, []))"

text \<open>\<^verbatim>\<open>posixpath.join\<close> of two components.\<close>

definition path_join :: "string \<Rightarrow> string \<Rightarrow> string" where
  "path_join a b =
     (if b \<noteq> [] \<and> hd b = CHR ''/'' then b
      else if a = [] \<or> last a = CHR ''/'' then a @ b
      else a @ ''/'' @ b)"

subsection \<open>Meshes\<close>

type_synonym vec3 = "npfloat \<times> npfloat \<times> npfloat"
type_synonym mat3 = "vec3 \<times> vec3 \<times> vec3"

text \<open>Indexing a three-element array with the constants \<open>0\<close>, \<open>1\<close>, \<open>2\<close>.\<close>

fun at0 :: "'a \<times> 'a \<times> 'a \<Rightarrow> 'a" where "at0 (a, b, c) = a"
fun at1 :: "'a \<times> 'a \<times> 'a \<Rightarrow> 'a" where "at1 (a, b, c) = b"
fun at2 :: "'a \<times> 'a \<times> 'a \<Rightarrow> 'a" where "at2 (a, b, c) = c"

text \<open>
  What the script reads from a loaded mesh: its volume, its centre of mass and, for the
  density that has been set on it, its mass and its moment of inertia. The volume is a
  finite number. The tensor is left as the mesh library computes it, a function of the
  density; the mass is the density times the volume.
\<close>

record mesh =
  volume :: rat
  density :: npfloat
  center_mass :: vec3
  inertia_at :: "npfloat \<Rightarrow> mat3"

definition mesh_mass :: "mesh \<Rightarrow> npfloat" where
  "mesh_mass m = np_mul (density m) (Fin (volume m))"

definition moment_inertia :: "mesh \<Rightarrow> mat3" where
  "moment_inertia m = inertia_at m (density m)"

subsection \<open>Dictionaries\<close>

text \<open>
  A Python \<^verbatim>\<open>dict\<close> is an association list in insertion order with distinct keys:
  \<^const>\<open>AList.update\<close> overwrites the value of a key already present where it stands and
  appends a new key at the end. Reading a missing key raises.
\<close>

type_synonym 'v dict = "(string \<times> 'v) list"

definition dict_get :: "'v dict \<Rightarrow> string \<Rightarrow> py_error + 'v" where
  "dict_get d k = (case map_of d k of None \<Rightarrow> Inl KeyError | Some v \<Rightarrow> Inr v)"

text \<open>The division of two Python floats.\<close>

definition py_div :: "rat \<Rightarrow> rat \<Rightarrow> py_error + rat" where
  "py_div a b = (if b = 0 then Inl ZeroDivisionError else Inr (a / b))"

subsection \<open>The SDF document\<close>

record sdf_link =
  link_name :: string
  link_mass :: npfloat
  ixx :: npfloat
  iyy :: npfloat
  izz :: npfloat
  ixy :: npfloat
  ixz :: npfloat
  iyz :: npfloat
  inertial_pose :: "npfloat list"

record sdf_model =
  model_name :: string
  links :: "sdf_link list"

record sdf =
  models :: "sdf_model list"

definition SDF :: sdf where
  "SDF = \<lparr>models = []\<rparr>"

definition add_model :: "string \<Rightarrow> sdf \<Rightarrow> sdf" where
  "add_model name d = d\<lparr>models := models d @ [\<lparr>model_name = name, links = []\<rparr>]\<rparr>"

definition create_link :: sdf_link where
  "create_link =
     \<lparr>link_name = [], link_mass = Fin 0,
      ixx = Fin 0, iyy = Fin 0, izz = Fin 0, ixy = Fin 0, ixz = Fin 0, iyz = Fin 0,
      inertial_pose = [Fin 0, Fin 0, Fin 0, Fin 0, Fin 0, Fin 0]\<rparr>"

text \<open>
  The setter of \<^verbatim>\<open>link.mass\<close> in the SDF library asserts that the value is at least
  \<open>1e-10\<close>.
\<close>

definition mass_accepted :: "npfloat \<Rightarrow> bool" where
  "mass_accepted x = np_le (Fin (1 / 10 ^ 10)) x"

definition add_link :: "string \<Rightarrow> sdf_link \<Rightarrow> sdf_model \<Rightarrow> sdf_model" where
  "add_link name l mdl = mdl\<lparr>links := links mdl @ [l\<lparr>link_name := name\<rparr>]\<rparr>"

subsection \<open>The process and its surroundings\<close>

text \<open>
  What a run reads: the command line, Python's \<^verbatim>\<open>float\<close> on a string (\<open>None\<close> where
  it raises), the mesh directory found from the script's location, the directory listing
  (\<open>None\<close> where the directory cannot be read) and the mesh loader (\<open>None\<close> where a file
  cannot be loaded as a mesh).
\<close>

record env =
  argv :: "string list"
  py_float :: "string \<Rightarrow> rat option"
  visual_mesh_dir :: string
  listdir :: "string \<Rightarrow> string list option"
  trimesh_load :: "string \<Rightarrow> mesh option"

text \<open>What a run changes: the console and the files of the working directory.\<close>

record world =
  stdout :: "out_line list"
  files :: "string \<Rightarrow> sdf option"

definition print :: "out_line \<Rightarrow> world \<Rightarrow> world" where
  "print l w = w\<lparr>stdout := stdout w @ [l]\<rparr>"

definition export_xml :: "string \<Rightarrow> sdf \<Rightarrow> world \<Rightarrow> world" where
  "export_xml name d w = w\<lparr>files := (files w)(name \<mapsto> d)\<rparr>"

subsection \<open>The script, stage by stage\<close>

definition forearm_mass_redistribute_percentage :: rat where
  "forearm_mass_redistribute_percentage = 1 / 2"

definition output_file :: string where
  "output_file = ''shadow_hand_inertial_out.sdf''"

text \<open>
  Lines 18 to 24: the result is the total mass (\<open>Some\<close>), or \<open>None\<close> where the script
  prints its message and exits with status 1; \<^verbatim>\<open>float\<close> may raise before that.
\<close>

definition read_total_mass :: "(string \<Rightarrow> rat option) \<Rightarrow> string list \<Rightarrow> py_error + rat option" where
  "read_total_mass flt args =
     (if length args > 1 then
        (case flt (args ! 1) of
           None \<Rightarrow> Inl ValueError
         | Some x \<Rightarrow> if x > 0 then Inr (Some x) else Inr None)
      else Inr (Some (42 / 10)))"

text \<open>Lines 37 to 43: the loop that fills \<^verbatim>\<open>meshes\<close>.\<close>

fun load_meshes ::
  "(string \<Rightarrow> mesh option) \<Rightarrow> string \<Rightarrow> string list \<Rightarrow> mesh dict \<Rightarrow> py_error + mesh dict" where
  "load_meshes ld dir [] meshes = Inr meshes"
| "load_meshes ld dir (mesh_basename # rest) meshes =
     (let name = fst (splitext mesh_basename);
          mesh_path = path_join dir mesh_basename
      in case ld mesh_path of
           None \<Rightarrow> Inl LoadError
         | Some m \<Rightarrow> load_meshes ld dir rest (AList.update name m meshes))"

definition is_repeated :: "string \<Rightarrow> bool" where
  "is_repeated name = (str_in ''finger'' name \<or> str_in ''knuckle'' name)"

definition is_forearm :: "string \<Rightarrow> bool" where
  "is_forearm name = str_in ''forearm'' name"

text \<open>
  Lines 46 to 56: the accumulators are \<^verbatim>\<open>total_volume\<close> and \<^verbatim>\<open>forearm_volume\<close>;
  the latter is unbound (\<open>None\<close>) until a forearm-named link has been met.
\<close>

fun volume_loop ::
  "mesh dict \<Rightarrow> rat \<Rightarrow> rat option \<Rightarrow> world \<Rightarrow> rat \<times> rat option \<times> world" where
  "volume_loop [] total_volume forearm_volume w = (total_volume, forearm_volume, w)"
| "volume_loop ((name, m) # rest) total_volume forearm_volume w =
     (let w1 = print (VolumeEstimate name (volume m)) w;
          (total_volume', w2) =
             (if is_repeated name
              then (total_volume + 4 * volume m, print (NoteFourTimes name) w1)
              else (total_volume + volume m, w1));
          forearm_volume' = (if is_forearm name then Some (volume m) else forearm_volume)
      in volume_loop rest total_volume' forearm_volume' w2)"

text \<open>
  Lines 72 to 75: the density set on one mesh. The average density and the proportion of
  the other links are numpy floats, so the division of line 75 does not raise.
\<close>

definition assign_density :: "rat \<Rightarrow> npfloat \<Rightarrow> npfloat \<Rightarrow> string \<Rightarrow> npfloat" where
  "assign_density fraction average_density other_links_proportion name =
     (if is_forearm name then np_mul (Fin (1 - fraction)) average_density
      else np_add average_density
             (np_mul (np_sub (np_div (Fin fraction) other_links_proportion) (Fin fraction))
                average_density))"

text \<open>Lines 67 to 78: the three dictionaries filled from the meshes.\<close>

type_synonym properties = "npfloat dict \<times> mat3 dict \<times> vec3 dict"

fun estimate_loop ::
  "rat \<Rightarrow> npfloat \<Rightarrow> npfloat \<Rightarrow> mesh dict \<Rightarrow> properties \<Rightarrow> properties" where
  "estimate_loop fraction average_density other_links_proportion [] props = props"
| "estimate_loop fraction average_density other_links_proportion ((name, m) # rest)
      (mass, inertia, centre_of_mass) =
     (let m' = m\<lparr>density := assign_density fraction average_density other_links_proportion name\<rparr>
      in estimate_loop fraction average_density other_links_proportion rest
           (AList.update name (mesh_mass m') mass,
            AList.update name (moment_inertia m') inertia,
            AList.update name (center_mass m') centre_of_mass))"

text \<open>Lines 85 to 90: the total mass summed again from the link masses.\<close>

fun total_mass_loop :: "string list \<Rightarrow> npfloat dict \<Rightarrow> npfloat \<Rightarrow> py_error + npfloat" where
  "total_mass_loop [] mass total_mass = Inr total_mass"
| "total_mass_loop (name # rest) mass total_mass =
     (case dict_get mass name of
        Inl e \<Rightarrow> Inl e
      | Inr x \<Rightarrow>
          total_mass_loop rest mass
            (if is_repeated name then np_add total_mass (np_mul (Fin 4) x)
             else np_add total_mass x))"

text \<open>
  Lines 95 to 106: one link element. The mass is read and set first, and the setter
  refuses it with an assertion error when it is not accepted.
\<close>

definition make_link :: "properties \<Rightarrow> string \<Rightarrow> py_error + sdf_link" where
  "make_link props name =
     (case props of (mass, inertia, centre_of_mass) \<Rightarrow>
        (case dict_get mass name of
           Inl e \<Rightarrow> Inl e
         | Inr x \<Rightarrow>
        (if \<not> mass_accepted x then Inl AssertionError
         else
        (case dict_get inertia name of
           Inl e \<Rightarrow> Inl e
         | Inr t \<Rightarrow>
        (case dict_get centre_of_mass name of
           Inl e \<Rightarrow> Inl e
         | Inr c \<Rightarrow>
             Inr (create_link
                   \<lparr>link_mass := x,
                    ixx := at0 (at0 t),
                    iyy := at1 (at1 t),
                    izz := at2 (at2 t),
                    ixy := at1 (at0 t),
                    ixz := at2 (at0 t),
                    iyz := at2 (at1 t),
                    inertial_pose := [at0 c, at1 c, at2 c, Fin 0, Fin 0, Fin 0]\<rparr>))))))"

text \<open>Lines 94 to 107: the loop that adds the links to the model.\<close>

fun links_loop :: "string list \<Rightarrow> properties \<Rightarrow> sdf_model \<Rightarrow> py_error + sdf_model" where
  "links_loop [] props mdl = Inr mdl"
| "links_loop (name # rest) props mdl =
     (case make_link props name of
        Inl e \<Rightarrow> Inl e
      | Inr l \<Rightarrow> links_loop rest props (add_link name l mdl))"

text \<open>
  Lines 80 to 112, from the three dictionaries to the written file. \<^verbatim>\<open>model\<close> is the
  first model of the document itself, so the links added to it are links of the document.
\<close>

definition build_and_export :: "mesh dict \<Rightarrow> properties \<Rightarrow> world \<Rightarrow> (py_error + unit) \<times> world" where
  "build_and_export meshes props w3 =
     (let doc = add_model ''shadow_hand'' SDF;
          mdl = hd (models doc)
      in case total_mass_loop (map fst meshes) (fst props) (Fin 0) of
           Inl e \<Rightarrow> (Inl e, w3)
         | Inr total_mass \<Rightarrow>
             (let w4 = print (TotalMassLine total_mass) w3
              in case links_loop (map fst meshes) props mdl of
                   Inl e \<Rightarrow> (Inl e, w4)
                 | Inr mdl' \<Rightarrow>
                     (let doc' = doc\<lparr>models := mdl' # tl (models doc)\<rparr>;
                          w5 = export_xml output_file doc' w4
                      in (Inr (), print (ResultsWritten output_file) w5))))"

text \<open>
  Lines 62 to 78, then the rest: the redistribution and the per-link properties. Reading
  \<^verbatim>\<open>forearm_volume\<close> raises when no forearm-named link has bound it; the divisions are
  numpy divisions.
\<close>

definition redistribute_and_export ::
  "npfloat \<Rightarrow> rat \<Rightarrow> rat option \<Rightarrow> mesh dict \<Rightarrow> world \<Rightarrow> (py_error + unit) \<times> world" where
  "redistribute_and_export average_density total_volume forearm_volume meshes w3 =
     (case forearm_volume of
        None \<Rightarrow> (Inl UnboundLocalError, w3)
      | Some fv \<Rightarrow>
          (let forearm_volume_proportion = np_div (Fin fv) (Fin total_volume);
               other_links_proportion = np_sub (Fin 1) forearm_volume_proportion;
               props = estimate_loop forearm_mass_redistribute_percentage average_density
                         other_links_proportion meshes ([], [], [])
           in build_and_export meshes props w3))"

text \<open>
  Line 59: \<^verbatim>\<open>total_volume\<close> is still the Python float \<open>0.0\<close> when no mesh has been added
  to it, and the division raises; once a volume has been added it is a numpy float, and
  the division returns.
\<close>

definition divide_total_mass :: "rat \<Rightarrow> mesh dict \<Rightarrow> rat \<Rightarrow> py_error + npfloat" where
  "divide_total_mass total_mass meshes total_volume =
     (if meshes = [] then map_sum id Fin (py_div total_mass total_volume)
      else Inr (np_div (Fin total_mass) (Fin total_volume)))"

text \<open>Lines 45 to 112, from the loaded meshes to the written file.\<close>

definition estimate_and_export :: "rat \<Rightarrow> mesh dict \<Rightarrow> world \<Rightarrow> (py_error + unit) \<times> world" where
  "estimate_and_export total_mass meshes w1 =
     (case volume_loop meshes 0 None w1 of
        (total_volume, forearm_volume, w2) \<Rightarrow>
          (case divide_total_mass total_mass meshes total_volume of
             Inl e \<Rightarrow> (Inl e, w2)
           | Inr average_density \<Rightarrow>
               redistribute_and_export average_density total_volume forearm_volume meshes
                 (print (AverageDensityEstimate average_density) w2)))"

text \<open>Lines 31 to 43: the directory is listed, the names sorted, every file loaded.\<close>

definition load_visual_meshes :: "env \<Rightarrow> py_error + mesh dict" where
  "load_visual_meshes e =
     (case listdir e (visual_mesh_dir e) of
        None \<Rightarrow> Inl OSError
      | Some visual_mesh_basenames \<Rightarrow>
          load_meshes (trimesh_load e) (visual_mesh_dir e) (sort visual_mesh_basenames) [])"

text \<open>The whole of \<^verbatim>\<open>main\<close>.\<close>

definition main :: "env \<Rightarrow> world \<Rightarrow> (py_error + unit) \<times> world" where
  "main e w0 =
     (case read_total_mass (py_float e) (argv e) of
        Inl err \<Rightarrow> (Inl err, w0)
      | Inr None \<Rightarrow> (Inl (SystemExit 1), print ErrorTotalMassPositive w0)
      | Inr (Some total_mass) \<Rightarrow>
          (let w1 = print (Estimating total_mass) w0
           in case load_visual_meshes e of
                Inl err \<Rightarrow> (Inl err, w1)
              | Inr meshes \<Rightarrow> estimate_and_export total_mass meshes w1))"

subsection \<open>Quantities the statements speak of\<close>

text \<open>The multiplier of a link in the volume and mass totals.\<close>

definition link_weight :: "string \<Rightarrow> rat" where
  "link_weight name = (if is_repeated name then 4 else 1)"

text \<open>The lines the volume loop prints for a dictionary of meshes.\<close>

definition volume_lines :: "mesh dict \<Rightarrow> out_line list" where
  "volume_lines ms = concat (map (\<lambda>(name, m).
      VolumeEstimate name (volume m) # (if is_repeated name then [NoteFourTimes name] else [])) ms)"

text \<open>The forearm-named entry met last in iteration order decides \<^verbatim>\<open>forearm_volume\<close>.\<close>

definition last_forearm :: "mesh dict \<Rightarrow> rat option \<Rightarrow> rat option" where
  "last_forearm ms fv =
     (case filter (\<lambda>p. is_forearm (fst p)) ms of
        [] \<Rightarrow> fv
      | p # ps \<Rightarrow> Some (volume (snd (last (p # ps)))))"

text \<open>The density a link receives when the numbers involved are finite.\<close>

definition assigned :: "rat \<Rightarrow> rat \<Rightarrow> rat \<Rightarrow> string \<Rightarrow> rat" where
  "assigned f a ol n = (if is_forearm n then (1 - f) * a else a + ((f / ol - f) * a))"

text \<open>
  The change a run makes to the world: lines added to the console and, when a document
  is given, the output file written.
\<close>

definition after :: "out_line list \<Rightarrow> sdf option \<Rightarrow> world \<Rightarrow> world" where
  "after out d w =
     w\<lparr>stdout := stdout w @ out,
       files := (case d of None \<Rightarrow> files w | Some doc \<Rightarrow> (files w)(output_file \<mapsto> doc))\<rparr>"

text \<open>The model the links are added to, as \<^const>\<open>add_model\<close> creates it.\<close>

definition first_model :: sdf_model where
  "first_model = \<lparr>model_name = ''shadow_hand'', links = []\<rparr>"

text \<open>
  The shape shared by the results of all stages: the outcome and the change to the world
  do not depend on the world the stage starts in, and a document is written exactly when
  the stage returns, holding one model whose links come from the link loop.
\<close>

definition stage_shape :: "(world \<Rightarrow> (py_error + unit) \<times> world) \<Rightarrow> mesh dict \<Rightarrow> bool" where
  "stage_shape f ms \<longleftrightarrow>
     (\<exists>r out d. (\<forall>w. f w = (r, after out d w)) \<and>
        (case r of
           Inl err \<Rightarrow> d = None
         | Inr u \<Rightarrow> \<exists>props mdl. links_loop (map fst ms) props first_model = Inr mdl \<and>
                       d = Some \<lparr>models = [mdl]\<rparr>))"

subsection \<open>Sample inputs\<close>

definition sample_mesh :: "rat \<Rightarrow> mesh" where
  "sample_mesh v =
     \<lparr>volume = v, density = Fin 1, center_mass = (Fin v, Fin (2 * v), Fin (3 * v)),
      inertia_at =
        (\<lambda>d. ((np_mul d (Fin 11), np_mul d (Fin 12), np_mul d (Fin 13)),
              (np_mul d (Fin 21), np_mul d (Fin 22), np_mul d (Fin 23)),
              (np_mul d (Fin 31), np_mul d (Fin 32), np_mul d (Fin 33))))\<rparr>"

definition sample_float :: "string \<Rightarrow> rat option" where
  "sample_float s =
     (if s = ''0'' then Some 0
      else if s = ''-1'' then Some (- 1)
      else if s = ''2.5'' then Some (5 / 2)
      else None)"

text \<open>A mesh directory given by its file names and the volume of the mesh in each file.\<close>

definition sample_env :: "string list \<Rightarrow> (string \<times> rat) list \<Rightarrow> env" where
  "sample_env args dir =
     \<lparr>argv = args,
      py_float = sample_float,
      visual_mesh_dir = ''/hand/visual'',
      listdir = (\<lambda>d. if d = ''/hand/visual'' then Some (map fst dir) else None),
      trimesh_load = (\<lambda>p. map_option sample_mesh
                         (map_of (map (\<lambda>(b, v). (''/hand/visual/'' @ b, v)) dir) p))\<rparr>"

definition sample_world :: world where
  "sample_world = \<lparr>stdout = [], files = (\<lambda>name. None)\<rparr>"

definition hand_dir :: "(string \<times> rat) list" where
  "hand_dir = [(''palm.dae'', 1 / 2), (''forearm.dae'', 1), (''fingerfoo.stl'', 1 / 10)]"

definition hand_meshes :: "mesh dict" where
  "hand_meshes =
     [(''fingerfoo'', sample_mesh (1 / 10)), (''forearm'', sample_mesh 1),
      (''palm'', sample_mesh (1 / 2))]"

definition knuckle_meshes :: "mesh dict" where
  "knuckle_meshes = [(''forearm_knuckle'', sample_mesh 1), (''palm'', sample_mesh 1)]"

definition two_forearm_meshes :: "mesh dict" where
  "two_forearm_meshes = [(''forearm'', sample_mesh 1), (''forearm2'', sample_mesh 1)]"

definition hand_env :: env where
  "hand_env = sample_env [''estimate_inertial_properties.py''] hand_dir"

text \<open>The same directory, listed by the system in the opposite order.\<close>

definition shuffled_env :: env where
  "shuffled_env = hand_env\<lparr>listdir := (\<lambda>d. map_option rev (listdir hand_env d))\<rparr>"

definition negative_mass_env :: env where
  "negative_mass_env = sample_env [''estimate_inertial_properties.py'', ''-1''] hand_dir"

definition no_forearm_env :: env where
  "no_forearm_env =
     sample_env [''estimate_inertial_properties.py'']
       [(''palm.dae'', 1 / 2), (''fingerfoo.stl'', 1 / 10)]"

definition hyphen_env :: env where
  "hyphen_env =
     sample_env [''estimate_inertial_properties.py'']
       [(''forearm.dae'', 1), (''forearm-left.dae'', 2)]"

definition used_world :: world where
  "used_world =
     \<lparr>stdout = [ErrorTotalMassPositive],
      files = (\<lambda>name. if name = ''shadow_hand_inertial_out.sdf'' then Some SDF else None)\<rparr>"

definition left_right_meshes :: "mesh dict" where
  "left_right_meshes =
     [(''forearm_a'', sample_mesh 2), (''forearm_b'', sample_mesh 3), (''palm'', sample_mesh 1)]"

definition empty_env :: env where
  "empty_env = sample_env [''estimate_inertial_properties.py''] []"

definition zero_palm_env :: env where
  "zero_palm_env = sample_env [''estimate_inertial_properties.py''] [(''palm.dae'', 0)]"

definition negative_palm_env :: env where
  "negative_palm_env =
     sample_env [''estimate_inertial_properties.py''] [(''forearm.dae'', 2), (''palm.dae'', - 1)]"

definition flat_palm_env :: env where
  "flat_palm_env =
     sample_env [''estimate_inertial_properties.py''] [(''forearm.dae'', 1), (''palm.dae'', 0)]"

section \<open>Properties of the loops\<close>

lemma volume_loop_eq:
  "volume_loop ms tv fv w =
     (tv + (\<Sum>p\<leftarrow>ms. link_weight (fst p) * volume (snd p)),
      last_forearm ms fv,
      w\<lparr>stdout := stdout w @ volume_lines ms\<rparr>)"
proof (induction ms arbitrary: tv fv w)
  case Nil
  show ?case by (simp add: last_forearm_def volume_lines_def)
next
  case (Cons p ms)
  obtain name m where p: "p = (name, m)" by (cases p)
  show ?case
    unfolding p
    by (simp add: Cons.IH link_weight_def last_forearm_def volume_lines_def print_def
             algebra_simps split: list.splits)
qed

lemma update_fresh: "k \<notin> fst ` set d \<Longrightarrow> AList.update k v d = d @ [(k, v)]"
  by (induction d) auto

lemma sum_list_split_filter:
  fixes g :: "'a \<Rightarrow> rat"
  shows "(\<Sum>p\<leftarrow>xs. g p) = (\<Sum>p\<leftarrow>filter P xs. g p) + (\<Sum>p\<leftarrow>filter (\<lambda>p. \<not> P p) xs. g p)"
  by (induction xs) auto

lemma weighted_sum_split:
  "(\<Sum>p\<leftarrow>ms. link_weight (fst p) * volume (snd p)) =
     (\<Sum>p\<leftarrow>filter (\<lambda>p. \<not> is_repeated (fst p)) ms. volume (snd p)) +
     4 * (\<Sum>p\<leftarrow>filter (\<lambda>p. is_repeated (fst p)) ms. volume (snd p))"
  by (induction ms) (auto simp: link_weight_def)

lemma two_density_sum:
  fixes ms :: "mesh dict" and c1 c2 :: rat
  shows "(\<Sum>p\<leftarrow>ms. link_weight (fst p) * ((if is_forearm (fst p) then c1 else c2) * volume (snd p))) =
     c1 * (\<Sum>p\<leftarrow>filter (\<lambda>p. is_forearm (fst p)) ms. link_weight (fst p) * volume (snd p)) +
     c2 * (\<Sum>p\<leftarrow>filter (\<lambda>p. \<not> is_forearm (fst p)) ms. link_weight (fst p) * volume (snd p))"
  by (induction ms) (auto simp: algebra_simps)

lemma redistributed_sum:
  fixes ms :: "mesh dict"
  shows "(\<Sum>p\<leftarrow>ms. link_weight (fst p) * (assigned f a ol (fst p) * volume (snd p))) =
     (1 - f) * a * (\<Sum>p\<leftarrow>filter (\<lambda>p. is_forearm (fst p)) ms. link_weight (fst p) * volume (snd p)) +
     (a + ((f / ol - f) * a)) *
        (\<Sum>p\<leftarrow>filter (\<lambda>p. \<not> is_forearm (fst p)) ms. link_weight (fst p) * volume (snd p))"
  unfolding assigned_def by (rule two_density_sum)

lemma single_forearm:
  assumes "filter is_forearm (map fst ms) = [fa]"
  obtains fm where "filter (\<lambda>p. is_forearm (fst p)) ms = [(fa, fm)]"
proof -
  have "map fst (filter (\<lambda>p. is_forearm (fst p)) ms) = [fa]"
    using assms by (simp add: filter_map comp_def)
  then obtain p where "filter (\<lambda>p. is_forearm (fst p)) ms = [p]" "fst p = fa"
    by (cases "filter (\<lambda>p. is_forearm (fst p)) ms") auto
  then show ?thesis using that[of "snd p"] by (cases p) auto
qed

lemma conservation_algebra:
  fixes T fv tm :: rat
  assumes "0 < T" "0 < 1 - fv / T"
  shows "(1 - 1 / 2) * (tm / T) * fv +
         (tm / T + ((1 / 2 / (1 - fv / T) - 1 / 2) * (tm / T))) * (T - fv) = tm"
proof -
  have T0: "T \<noteq> 0" using assms(1) by simp
  have "fv / T < 1" using assms(2) by simp
  then have "fv < T" using assms(1) by (simp add: pos_divide_less_eq)
  then have d0: "T - fv \<noteq> 0" by simp
  have ol: "1 - fv / T = (T - fv) / T" using T0 by (simp add: field_simps)
  have "(1 / 2 / ((T - fv) / T)) * (T - fv) = T / 2" using T0 d0 by (simp add: field_simps)
  then have k: "(1 / 2 / (1 - fv / T)) * (T - fv) = T / 2" by (simp only: ol)
  have "(1 - 1 / 2) * (tm / T) * fv +
         (tm / T + ((1 / 2 / (1 - fv / T) - 1 / 2) * (tm / T))) * (T - fv)
        = (tm / T) * (fv / 2 + (T - fv) / 2 + (1 / 2 / (1 - fv / T)) * (T - fv))"
    by (simp add: algebra_simps)
  also have "\<dots> = (tm / T) * (fv / 2 + (T - fv) / 2 + T / 2)" by (simp only: k)
  also have "\<dots> = tm" using T0 by (simp add: field_simps)
  finally show ?thesis .
qed

lemma map_of_tagged:
  assumes "distinct (map fst ms)" "(n, m) \<in> set ms"
  shows "map_of (map (\<lambda>(n, m). (n, g n m)) ms) n = Some (g n m)"
  using assms by (induction ms) (auto simp: rev_image_eqI)


lemma estimate_loop_eq:
  assumes "distinct (map fst ms)" "fst ` set ms \<inter> fst ` set mass = {}"
     "fst ` set ms \<inter> fst ` set inertia = {}" "fst ` set ms \<inter> fst ` set com = {}"
  shows "estimate_loop f a ol ms (mass, inertia, com) =
     (mass @ map (\<lambda>(n, m). (n, np_mul (assign_density f a ol n) (Fin (volume m)))) ms,
      inertia @ map (\<lambda>(n, m). (n, inertia_at m (assign_density f a ol n))) ms,
      com @ map (\<lambda>(n, m). (n, center_mass m)) ms)"
  using assms
proof (induction ms arbitrary: mass inertia com)
  case Nil
  then show ?case by simp
next
  case (Cons p ms)
  obtain n m where p: "p = (n, m)" by (cases p)
  have fresh: "n \<notin> fst ` set mass" "n \<notin> fst ` set inertia" "n \<notin> fst ` set com"
    using Cons.prems unfolding p by auto
  have nms: "n \<notin> fst ` set ms" using Cons.prems(1) unfolding p by auto
  show ?case unfolding p
    apply (simp add: Let_def update_fresh[OF fresh(1)] update_fresh[OF fresh(2)]
             update_fresh[OF fresh(3)] mesh_mass_def moment_inertia_def)
    apply (subst Cons.IH)
    using Cons.prems nms unfolding p by auto
qed

lemma estimate_loop_result:
  assumes "distinct (map fst ms)"
  shows "estimate_loop f a ol ms ([], [], []) =
     (map (\<lambda>(n, m). (n, np_mul (assign_density f a ol n) (Fin (volume m)))) ms,
      map (\<lambda>(n, m). (n, inertia_at m (assign_density f a ol n))) ms,
      map (\<lambda>(n, m). (n, center_mass m)) ms)"
  using estimate_loop_eq[OF assms, of "[]" "[]" "[]"] by simp

lemma total_mass_loop_eq:
  assumes "\<forall>k \<in> set ks. map_of mass k = Some (Fin (h k))"
  shows "total_mass_loop ks mass (Fin acc) = Inr (Fin (acc + (\<Sum>k\<leftarrow>ks. link_weight k * h k)))"
  using assms
  by (induction ks arbitrary: acc) (auto simp: dict_get_def link_weight_def algebra_simps)

lemma total_mass_loop_tagged:
  assumes "distinct (map fst ms)"
  shows "total_mass_loop (map fst ms) (map (\<lambda>(n, m). (n, Fin (g n m))) ms) (Fin acc) =
           Inr (Fin (acc + (\<Sum>p\<leftarrow>ms. link_weight (fst p) * g (fst p) (snd p))))"
proof -
  define h where "h k = g k (the (map_of ms k))" for k
  have look: "\<forall>k \<in> set (map fst ms). map_of (map (\<lambda>(n, m). (n, Fin (g n m))) ms) k = Some (Fin (h k))"
  proof
    fix k assume "k \<in> set (map fst ms)"
    then obtain m where km: "(k, m) \<in> set ms" by auto
    then have "map_of ms k = Some m" using assms by simp
    then show "map_of (map (\<lambda>(n, m). (n, Fin (g n m))) ms) k = Some (Fin (h k))"
      using map_of_tagged[OF assms km, of "\<lambda>n m. Fin (g n m)"] by (simp add: h_def)
  qed
  have "(\<Sum>k\<leftarrow>map fst ms. link_weight k * h k) = (\<Sum>p\<leftarrow>ms. link_weight (fst p) * g (fst p) (snd p))"
  proof -
    have "h (fst p) = g (fst p) (snd p)" if "p \<in> set ms" for p
    proof -
      have "map_of ms (fst p) = Some (snd p)" using assms that by simp
      then show ?thesis by (simp add: h_def)
    qed
    then have eq: "map (\<lambda>p. link_weight (fst p) * h (fst p)) ms = map (\<lambda>p. link_weight (fst p) * g (fst p) (snd p)) ms"
      by (intro map_cong) auto
    have "(\<Sum>k\<leftarrow>map fst ms. link_weight k * h k) = sum_list (map (\<lambda>p. link_weight (fst p) * h (fst p)) ms)"
      by (simp add: comp_def)
    also have "\<dots> = sum_list (map (\<lambda>p. link_weight (fst p) * g (fst p) (snd p)) ms)"
      by (rule arg_cong[OF eq])
    finally show ?thesis .
  qed
  with total_mass_loop_eq[OF look, of acc] show ?thesis by simp
qed

lemma assign_density_assigned:
  "ol \<noteq> 0 \<or> is_forearm n \<Longrightarrow> assign_density f (Fin a) (Fin ol) n = Fin (assigned f a ol n)"
  by (auto simp: assign_density_def assigned_def np_sub_def)

section \<open>Properties of the stages and of the whole run\<close>

lemma after_nothing: "after [] None w = w"
  by (simp add: after_def)

lemma after_print: "print l (after out None w) = after (out @ [l]) None w"
  by (simp add: after_def print_def)

lemma after_after: "after out2 d (after out1 None w) = after (out1 @ out2) d w"
  by (cases d) (simp_all add: after_def)

lemma files_after_None: "files (after out None w) = files w"
  by (simp add: after_def)

lemma volume_loop_after:
  "volume_loop ms tv fv w =
     (tv + (\<Sum>p\<leftarrow>ms. link_weight (fst p) * volume (snd p)), last_forearm ms fv,
      after (volume_lines ms) None w)"
  by (simp add: volume_loop_eq after_def)

lemma links_loop_names:
  "links_loop ks props mdl = Inr mdl' \<Longrightarrow>
     map link_name (links mdl') = map link_name (links mdl) @ ks \<and> model_name mdl' = model_name mdl"
proof (induction ks arbitrary: mdl)
  case Nil
  then show ?case by simp
next
  case (Cons k ks)
  then obtain l where l: "make_link props k = Inr l"
    and rest: "links_loop ks props (add_link k l mdl) = Inr mdl'"
    by (auto split: sum.splits)
  from Cons.IH[OF rest] show ?case by (simp add: add_link_def)
qed

lemma sorted_le_last:
  fixes xs :: "string list"
  assumes "sorted xs" and "x \<in> set xs" and "xs \<noteq> []"
  shows "x \<le> last xs"
proof -
  from assms(2) obtain i where i: "i < length xs" "xs ! i = x" by (auto simp: in_set_conv_nth)
  have "xs ! i \<le> xs ! (length xs - 1)"
    using assms(1) i(1) by (intro sorted_nth_mono) auto
  then show ?thesis using i(2) assms(3) by (simp add: last_conv_nth)
qed

lemma sort_mset_eq:
  fixes xs ys :: "string list"
  assumes "mset xs = mset ys"
  shows "sort xs = sort ys"
  by (rule properties_for_sort) (simp_all add: assms)

lemma load_meshes_distinct:
  "load_meshes ld dir bs acc = Inr ms \<Longrightarrow> distinct (map fst acc) \<Longrightarrow> distinct (map fst ms)"
proof (induction bs arbitrary: acc)
  case Nil
  then show ?case by simp
next
  case (Cons b bs)
  then obtain m where "ld (path_join dir b) = Some m"
    and rest: "load_meshes ld dir bs (AList.update (fst (splitext b)) m acc) = Inr ms"
    by (auto simp: Let_def split: option.splits)
  from Cons.IH[OF rest] Cons.prems(2) show ?case by (simp add: distinct_update)
qed

lemma load_meshes_key_set:
  "load_meshes ld dir bs acc = Inr ms \<Longrightarrow>
     fst ` set ms = fst ` set acc \<union> (\<lambda>b. fst (splitext b)) ` set bs"
proof (induction bs arbitrary: acc)
  case Nil
  then show ?case by simp
next
  case (Cons b bs)
  then obtain m where "ld (path_join dir b) = Some m"
    and rest: "load_meshes ld dir bs (AList.update (fst (splitext b)) m acc) = Inr ms"
    by (auto simp: Let_def split: option.splits)
  from Cons.IH[OF rest] show ?case by (simp add: dom_update)
qed

lemma load_visual_meshes_distinct:
  "load_visual_meshes e = Inr ms \<Longrightarrow> distinct (map fst ms)"
  by (auto simp: load_visual_meshes_def split: option.splits dest: load_meshes_distinct)

lemma load_visual_meshes_cong:
  assumes "visual_mesh_dir e1 = visual_mesh_dir e2" and "trimesh_load e1 = trimesh_load e2"
    and "rel_option (\<lambda>a b. mset a = mset b)
           (listdir e1 (visual_mesh_dir e1)) (listdir e2 (visual_mesh_dir e2))"
  shows "load_visual_meshes e1 = load_visual_meshes e2"
proof (cases "listdir e1 (visual_mesh_dir e1)")
  case None
  with assms(3) have n2: "listdir e2 (visual_mesh_dir e2) = None"
    by (cases "listdir e2 (visual_mesh_dir e2)") simp_all
  have "load_visual_meshes e1 = Inl OSError" by (simp add: load_visual_meshes_def None)
  moreover have "load_visual_meshes e2 = Inl OSError" by (simp add: load_visual_meshes_def n2)
  ultimately show ?thesis by simp
next
  case (Some a)
  with assms(3) obtain b where b: "listdir e2 (visual_mesh_dir e2) = Some b" "mset a = mset b"
    by (cases "listdir e2 (visual_mesh_dir e2)") simp_all
  have s: "sort a = sort b" by (rule sort_mset_eq[OF b(2)])
  have "load_visual_meshes e1 = load_meshes (trimesh_load e1) (visual_mesh_dir e1) (sort a) []"
    by (simp add: load_visual_meshes_def Some)
  also have "\<dots> = load_meshes (trimesh_load e2) (visual_mesh_dir e2) (sort b) []"
    by (simp only: s assms(1) assms(2))
  also have "\<dots> = load_visual_meshes e2"
    by (simp add: load_visual_meshes_def b(1))
  finally show ?thesis .
qed

lemma no_forearm_last: "\<forall>n \<in> fst ` set ms. \<not> is_forearm n \<Longrightarrow> last_forearm ms fv = fv"
proof -
  assume "\<forall>n \<in> fst ` set ms. \<not> is_forearm n"
  then have "filter (\<lambda>p. is_forearm (fst p)) ms = []" by (auto simp: filter_empty_conv)
  then show ?thesis by (simp add: last_forearm_def)
qed

lemma stage_shape_fail:
  assumes "\<And>w. f w = (Inl err, after out None w)"
  shows "stage_shape f ms"
  unfolding stage_shape_def
  by (rule exI[of _ "Inl err"], rule exI[of _ out], rule exI[of _ None]) (simp add: assms)

lemma stage_shape_done:
  assumes "\<And>w. f w = (Inr (), after out (Some \<lparr>models = [mdl]\<rparr>) w)"
    and "links_loop (map fst ms) props first_model = Inr mdl"
  shows "stage_shape f ms"
proof -
  have "\<exists>props mdl'. links_loop (map fst ms) props first_model = Inr mdl' \<and>
          Some \<lparr>models = [mdl]\<rparr> = Some \<lparr>models = [mdl']\<rparr>"
    using assms(2) by blast
  then show ?thesis
    unfolding stage_shape_def
    by (intro exI[of _ "Inr ()"] exI[of _ out] exI[of _ "Some \<lparr>models = [mdl]\<rparr>"])
       (simp add: assms(1) del: split_paired_Ex)
qed

lemma stage_shape_prefix:
  assumes "stage_shape f ms"
  shows "stage_shape (\<lambda>w. f (after out None w)) ms"
proof -
  from assms obtain r out' d where f: "\<And>w. f w = (r, after out' d w)"
    and c: "case r of Inl err \<Rightarrow> d = None
            | Inr u \<Rightarrow> \<exists>props mdl. links_loop (map fst ms) props first_model = Inr mdl \<and>
                         d = Some \<lparr>models = [mdl]\<rparr>"
    unfolding stage_shape_def by blast
  have g: "\<forall>w. f (after out None w) = (r, after (out @ out') d w)"
    by (simp add: f after_after)
  show ?thesis
    unfolding stage_shape_def
    by (rule exI[of _ r], rule exI[of _ "out @ out'"], rule exI[of _ d]) (simp only: g c simp_thms)
qed


lemma links_loop_Inr:
  "links_loop ks props mdl = Inr mdl' \<Longrightarrow>
     mdl' = mdl\<lparr>links := links mdl @ map (\<lambda>k. (projr (make_link props k))\<lparr>link_name := k\<rparr>) ks\<rparr> \<and>
     (\<forall>k \<in> set ks. \<not> isl (make_link props k))"
proof (induction ks arbitrary: mdl)
  case Nil
  then show ?case by simp
next
  case (Cons k ks)
  then obtain l where l: "make_link props k = Inr l"
    and rest: "links_loop ks props (add_link k l mdl) = Inr mdl'"
    by (auto split: sum.splits)
  from Cons.IH[OF rest] show ?case by (simp add: add_link_def l)
qed

lemma make_link_tagged:
  assumes keys: "distinct (map fst ms)" and mem: "(n, m) \<in> set ms"
  shows "make_link (map (\<lambda>(n, m). (n, gm n m)) ms, map (\<lambda>(n, m). (n, gi n m)) ms,
                    map (\<lambda>(n, m). (n, gc n m)) ms) n =
         (if mass_accepted (gm n m) then
            Inr (create_link
               \<lparr>link_mass := gm n m,
                ixx := at0 (at0 (gi n m)), iyy := at1 (at1 (gi n m)), izz := at2 (at2 (gi n m)),
                ixy := at1 (at0 (gi n m)), ixz := at2 (at0 (gi n m)), iyz := at2 (at1 (gi n m)),
                inertial_pose := [at0 (gc n m), at1 (gc n m), at2 (gc n m), Fin 0, Fin 0, Fin 0]\<rparr>)
          else Inl AssertionError)"
  by (simp add: make_link_def dict_get_def map_of_tagged[OF keys mem])

lemma build_and_export_unfold:
  "build_and_export ms props w =
     (case total_mass_loop (map fst ms) (fst props) (Fin 0) of
        Inl err \<Rightarrow> (Inl err, after [] None w)
      | Inr tm \<Rightarrow>
          (case links_loop (map fst ms) props first_model of
             Inl err \<Rightarrow> (Inl err, after [TotalMassLine tm] None w)
           | Inr mdl \<Rightarrow>
               (Inr (), after [TotalMassLine tm, ResultsWritten output_file]
                          (Some \<lparr>models = [mdl]\<rparr>) w)))"
proof -
  have doc: "add_model ''shadow_hand'' SDF = \<lparr>models = [first_model]\<rparr>"
    by (simp add: add_model_def SDF_def first_model_def)
  show ?thesis
    by (simp add: build_and_export_def Let_def doc after_def print_def export_xml_def
          split: sum.splits)
qed

lemma build_and_export_shape: "stage_shape (build_and_export ms props) ms"
proof (cases "total_mass_loop (map fst ms) (fst props) (Fin 0)")
  case (Inl err)
  then have "\<And>w. build_and_export ms props w = (Inl err, after [] None w)"
    by (simp add: build_and_export_unfold)
  then show ?thesis by (rule stage_shape_fail)
next
  case (Inr tm)
  show ?thesis
  proof (cases "links_loop (map fst ms) props first_model")
    case (Inl err)
    then have "\<And>w. build_and_export ms props w = (Inl err, after [TotalMassLine tm] None w)"
      using Inr by (simp add: build_and_export_unfold)
    then show ?thesis by (rule stage_shape_fail)
  next
    case mdl: (Inr mdl)
    have "\<And>w. build_and_export ms props w =
            (Inr (), after [TotalMassLine tm, ResultsWritten output_file] (Some \<lparr>models = [mdl]\<rparr>) w)"
      using Inr mdl by (simp add: build_and_export_unfold)
    then show ?thesis using mdl by (rule stage_shape_done)
  qed
qed

lemma redistribute_and_export_shape:
  "stage_shape (redistribute_and_export a T fvo ms) ms"
proof (cases fvo)
  case None
  have "\<And>w. redistribute_and_export a T fvo ms w = (Inl UnboundLocalError, after [] None w)"
    by (simp add: redistribute_and_export_def None after_nothing)
  then show ?thesis by (rule stage_shape_fail)
next
  case (Some fv)
  have "redistribute_and_export a T fvo ms =
          build_and_export ms
            (estimate_loop forearm_mass_redistribute_percentage a
               (np_sub (Fin 1) (np_div (Fin fv) (Fin T))) ms ([], [], []))"
    by (simp add: fun_eq_iff redistribute_and_export_def Some Let_def)
  then show ?thesis by (simp only: build_and_export_shape)
qed

lemma estimate_and_export_unfold:
  "estimate_and_export tm ms w =
     (case divide_total_mass tm ms (\<Sum>p\<leftarrow>ms. link_weight (fst p) * volume (snd p)) of
        Inl err \<Rightarrow> (Inl err, after (volume_lines ms) None w)
      | Inr a \<Rightarrow>
          redistribute_and_export a (\<Sum>p\<leftarrow>ms. link_weight (fst p) * volume (snd p))
            (last_forearm ms None) ms
            (after (volume_lines ms @ [AverageDensityEstimate a]) None w))"
  by (simp add: estimate_and_export_def volume_loop_after after_print split: sum.splits)

lemma estimate_and_export_no_forearm:
  assumes "last_forearm ms None = None"
  shows "estimate_and_export tm ms w =
     (case divide_total_mass tm ms (\<Sum>p\<leftarrow>ms. link_weight (fst p) * volume (snd p)) of
        Inl err \<Rightarrow> (Inl err, after (volume_lines ms) None w)
      | Inr a \<Rightarrow> (Inl UnboundLocalError, after (volume_lines ms @ [AverageDensityEstimate a]) None w))"
  by (simp add: estimate_and_export_unfold assms redistribute_and_export_def split: sum.splits)

lemma estimate_and_export_shape: "stage_shape (estimate_and_export tm ms) ms"
proof (cases "divide_total_mass tm ms (\<Sum>p\<leftarrow>ms. link_weight (fst p) * volume (snd p))")
  case (Inl err)
  have "\<And>w. estimate_and_export tm ms w = (Inl err, after (volume_lines ms) None w)"
    by (simp add: estimate_and_export_unfold Inl)
  then show ?thesis by (rule stage_shape_fail)
next
  case (Inr a)
  have "estimate_and_export tm ms =
          (\<lambda>w. redistribute_and_export a (\<Sum>p\<leftarrow>ms. link_weight (fst p) * volume (snd p))
                  (last_forearm ms None) ms
                  (after (volume_lines ms @ [AverageDensityEstimate a]) None w))"
    by (simp add: fun_eq_iff estimate_and_export_unfold Inr)
  then show ?thesis
    by (simp only: stage_shape_prefix[OF redistribute_and_export_shape])
qed

lemma main_effect:
  "\<exists>r out d. (\<forall>w. main e w = (r, after out d w)) \<and>
     (case r of
        Inl err \<Rightarrow> d = None
      | Inr u \<Rightarrow> \<exists>meshes props mdl. load_visual_meshes e = Inr meshes \<and>
                   links_loop (map fst meshes) props first_model = Inr mdl \<and>
                   d = Some \<lparr>models = [mdl]\<rparr>)"
proof (cases "read_total_mass (py_float e) (argv e)")
  case (Inl err)
  then have m: "\<forall>w. main e w = (Inl err, after [] None w)"
    by (simp add: main_def after_nothing)
  show ?thesis
    by (rule exI[of _ "Inl err"], rule exI[of _ "[]"], rule exI[of _ None]) (simp add: m)
next
  case (Inr tmo)
  show ?thesis
  proof (cases tmo)
    case None
    then have m: "\<forall>w. main e w = (Inl (SystemExit 1), after [ErrorTotalMassPositive] None w)"
      using Inr by (simp add: main_def after_def print_def)
    show ?thesis
      by (rule exI[of _ "Inl (SystemExit 1)"], rule exI[of _ "[ErrorTotalMassPositive]"],
          rule exI[of _ None]) (simp add: m)
  next
    case (Some tm)
    show ?thesis
    proof (cases "load_visual_meshes e")
      case (Inl err)
      then have m: "\<forall>w. main e w = (Inl err, after [Estimating tm] None w)"
        using Inr Some by (simp add: main_def after_def print_def)
      show ?thesis
        by (rule exI[of _ "Inl err"], rule exI[of _ "[Estimating tm]"], rule exI[of _ None])
           (simp add: m)
    next
      case ms: (Inr ms)
      have m: "\<And>w. main e w = estimate_and_export tm ms (after [Estimating tm] None w)"
        using Inr Some ms by (simp add: main_def after_def print_def)
      from stage_shape_prefix[OF estimate_and_export_shape, of tm ms "[Estimating tm]"]
      obtain r out d where f: "\<And>w. estimate_and_export tm ms (after [Estimating tm] None w) = (r, after out d w)"
        and c: "case r of Inl err \<Rightarrow> d = None
            | Inr u \<Rightarrow> \<exists>props mdl. links_loop (map fst ms) props first_model = Inr mdl \<and>
                         d = Some \<lparr>models = [mdl]\<rparr>"
        unfolding stage_shape_def by blast
      have mm: "\<forall>w. main e w = (r, after out d w)" by (simp add: m f)
      have cc: "case r of Inl err \<Rightarrow> d = None
          | Inr u \<Rightarrow> \<exists>meshes props mdl. load_visual_meshes e = Inr meshes \<and>
                   links_loop (map fst meshes) props first_model = Inr mdl \<and>
                   d = Some \<lparr>models = [mdl]\<rparr>"
      proof (cases r)
        case (Inl err)
        then show ?thesis using c by simp
      next
        case (Inr u)
        then obtain props mdl where "links_loop (map fst ms) props first_model = Inr mdl"
          "d = Some \<lparr>models = [mdl]\<rparr>" using c by auto
        then show ?thesis using Inr ms by (simp del: split_paired_Ex) blast
      qed
      show ?thesis
        by (rule exI[of _ r], rule exI[of _ out], rule exI[of _ d]) (simp only: mm cc simp_thms)
    qed
  qed
qed

lemma main_success:
  assumes "main e w0 = (Inr (), w')"
  obtains meshes props mdl where "load_visual_meshes e = Inr meshes"
    and "links_loop (map fst meshes) props first_model = Inr mdl"
    and "files w' = (files w0)(output_file \<mapsto> \<lparr>models = [mdl]\<rparr>)"
proof -
  from main_effect[of e] obtain r out d where m: "\<And>w. main e w = (r, after out d w)"
    and c: "case r of
        Inl err \<Rightarrow> d = None
      | Inr u \<Rightarrow> \<exists>meshes props mdl. load_visual_meshes e = Inr meshes \<and>
                   links_loop (map fst meshes) props first_model = Inr mdl \<and>
                   d = Some \<lparr>models = [mdl]\<rparr>"
    by blast
  from m[of w0] assms have r: "r = Inr ()" and w': "w' = after out d w0" by simp_all
  from c r obtain meshes props mdl where a: "load_visual_meshes e = Inr meshes"
    "links_loop (map fst meshes) props first_model = Inr mdl" "d = Some \<lparr>models = [mdl]\<rparr>"
    by auto
  have "files w' = (files w0)(output_file \<mapsto> \<lparr>models = [mdl]\<rparr>)"
    by (simp add: w' a(3) after_def)
  with a that show ?thesis by blast
qed

lemma main_failure:
  assumes "main e w0 = (Inl err, w')"
  shows "files w' = files w0"
proof -
  from main_effect[of e] obtain r out d where m: "\<And>w. main e w = (r, after out d w)"
    and c: "case r of
        Inl err \<Rightarrow> d = None
      | Inr u \<Rightarrow> \<exists>meshes props mdl. load_visual_meshes e = Inr meshes \<and>
                   links_loop (map fst meshes) props first_model = Inr mdl \<and>
                   d = Some \<lparr>models = [mdl]\<rparr>"
    by blast
  from m[of w0] assms have r: "r = Inl err" and w': "w' = after out d w0" by simp_all
  from c r have "d = None" by simp
  then show ?thesis by (simp add: w' after_def)
qed

lemma main_cong:
  assumes "argv e1 = argv e2" and "py_float e1 = py_float e2"
    and "load_visual_meshes e1 = load_visual_meshes e2"
  shows "main e1 w = main e2 w"
  unfolding main_def assms ..


text \<open>A run that returns, stage by stage.\<close>

lemma main_success_stages:
  assumes "main e w0 = (Inr (), w')"
  obtains tm ms fv mdl where
    "read_total_mass (py_float e) (argv e) = Inr (Some tm)"
    "load_visual_meshes e = Inr ms"
    "ms \<noteq> []"
    "last_forearm ms None = Some fv"
    "links_loop (map fst ms)
       (estimate_loop forearm_mass_redistribute_percentage
          (np_div (Fin tm) (Fin (\<Sum>p\<leftarrow>ms. link_weight (fst p) * volume (snd p))))
          (np_sub (Fin 1)
             (np_div (Fin fv) (Fin (\<Sum>p\<leftarrow>ms. link_weight (fst p) * volume (snd p)))))
          ms ([], [], []))
       first_model = Inr mdl"
    "files w' = (files w0)(output_file \<mapsto> \<lparr>models = [mdl]\<rparr>)"
proof -
  let ?T = "\<Sum>p\<leftarrow>ms. link_weight (fst p) * volume (snd p)"
  from assms obtain tm where tm: "read_total_mass (py_float e) (argv e) = Inr (Some tm)"
    by (auto simp: main_def split: sum.splits option.splits)
  from assms tm obtain ms where ms: "load_visual_meshes e = Inr ms"
    by (auto simp: main_def Let_def split: sum.splits)
  from assms tm ms have run: "estimate_and_export tm ms (print (Estimating tm) w0) = (Inr (), w')"
    by (simp add: main_def Let_def)
  let ?T = "\<Sum>p\<leftarrow>ms. link_weight (fst p) * volume (snd p)"
  let ?w1 = "print (Estimating tm) w0"
  from run obtain a where a: "divide_total_mass tm ms ?T = Inr a"
    and red: "redistribute_and_export a ?T (last_forearm ms None) ms
                (after (volume_lines ms @ [AverageDensityEstimate a]) None ?w1) = (Inr (), w')"
    by (auto simp: estimate_and_export_unfold split: sum.splits)
  have ne: "ms \<noteq> []"
  proof
    assume "ms = []"
    then show False using a by (simp add: divide_total_mass_def py_div_def)
  qed
  then have a': "a = np_div (Fin tm) (Fin ?T)" using a by (simp add: divide_total_mass_def)
  from red obtain fv where fv: "last_forearm ms None = Some fv"
    by (auto simp: redistribute_and_export_def split: option.splits)
  let ?props = "estimate_loop forearm_mass_redistribute_percentage a
                  (np_sub (Fin 1) (np_div (Fin fv) (Fin ?T))) ms ([], [], [])"
  let ?w3 = "after (volume_lines ms @ [AverageDensityEstimate a]) None ?w1"
  from red fv have b: "build_and_export ms ?props ?w3 = (Inr (), w')"
    by (simp add: redistribute_and_export_def Let_def)
  then obtain tm' mdl where "total_mass_loop (map fst ms) (fst ?props) (Fin 0) = Inr tm'"
    and mdl: "links_loop (map fst ms) ?props first_model = Inr mdl"
    and w': "w' = after [TotalMassLine tm', ResultsWritten output_file] (Some \<lparr>models = [mdl]\<rparr>) ?w3"
    by (auto simp: build_and_export_unfold split: sum.splits)
  have "files w' = (files w0)(output_file \<mapsto> \<lparr>models = [mdl]\<rparr>)"
    by (simp add: w' after_def print_def)
  with tm ms ne fv mdl that show ?thesis unfolding a' by blast
qed

section \<open>The run on inputs at the border\<close>

text \<open>
  An empty directory: the total volume is still the Python float \<open>0.0\<close> and line 59
  raises.
\<close>

lemma empty_directory_run:
  "fst (main empty_env sample_world) = Inl ZeroDivisionError"
  by code_simp

text \<open>
  A single palm of volume zero: line 59 returns an infinity, which is printed, and
  line 63 raises on the unbound forearm volume.
\<close>

lemma zero_palm_run:
  "fst (main zero_palm_env sample_world) = Inl UnboundLocalError \<and>
   stdout (snd (main zero_palm_env sample_world)) =
     [Estimating (21 / 5), VolumeEstimate ''palm'' 0, AverageDensityEstimate PInf]"
  by code_simp

text \<open>
  A forearm of volume 2 and a palm of volume -1: the palm receives the density 0 and the
  mass 0, which the setter of line 96 refuses after the forearm link has been added.
\<close>

lemma negative_palm_run:
  "fst (main negative_palm_env sample_world) = Inl AssertionError \<and>
   stdout (snd (main negative_palm_env sample_world)) =
     [Estimating (21 / 5), VolumeEstimate ''forearm'' 2, VolumeEstimate ''palm'' (- 1),
      AverageDensityEstimate (Fin (21 / 5)), TotalMassLine (Fin (21 / 5))] \<and>
   files (snd (main negative_palm_env sample_world)) output_file = None"
  by code_simp

text \<open>
  A forearm of volume 1 and a palm of volume zero: the proportion of the other links is
  zero, line 75 returns an infinity, the mass of the palm is a NaN and the setter of
  line 96 refuses it.
\<close>

lemma flat_palm_run:
  "fst (main flat_palm_env sample_world) = Inl AssertionError \<and>
   stdout (snd (main flat_palm_env sample_world)) =
     [Estimating (21 / 5), VolumeEstimate ''forearm'' 1, VolumeEstimate ''palm'' 0,
      AverageDensityEstimate (Fin (21 / 5)), TotalMassLine NaN]"
  by code_simp


section \<open>The specification, claim by claim\<close>

text \<open>
  C2. The total volume accumulated by the volume loop is the sum of the volumes of the
  links whose name contains neither \<open>finger\<close> nor \<open>knuckle\<close>, plus four times the sum of the
  volumes of the links whose name contains one of them.
\<close>

theorem total_volume_weighted_sum:
  "fst (volume_loop meshes 0 None w) =
     (\<Sum>p\<leftarrow>filter (\<lambda>p. \<not> is_repeated (fst p)) meshes. volume (snd p)) +
     4 * (\<Sum>p\<leftarrow>filter (\<lambda>p. is_repeated (fst p)) meshes. volume (snd p))"
  by (simp add: volume_loop_eq weighted_sum_split)

theorem total_volume_weighted_sum_witness:
  "fst (volume_loop hand_meshes 0 None sample_world) = (1 + 1 / 2) + 4 * (1 / 10)"
proof -
  have "filter (\<lambda>p. is_repeated (fst p)) hand_meshes = [(''fingerfoo'', sample_mesh (1 / 10))]"
    by (simp add: hand_meshes_def is_repeated_def)
  moreover have "filter (\<lambda>p. \<not> is_repeated (fst p)) hand_meshes =
      [(''forearm'', sample_mesh 1), (''palm'', sample_mesh (1 / 2))]"
    by (simp add: hand_meshes_def is_repeated_def)
  ultimately show ?thesis
    using total_volume_weighted_sum [of hand_meshes sample_world]
    by (simp add: sample_mesh_def)
qed

text \<open>
  C3. With a positive target mass and a positive total volume the average density of
  line 59 is the finite, positive quotient of the two, and for every redistribution
  fraction strictly between 0 and 1 the density assigned to a forearm-named link,
  \<open>(1 - fraction) * average_density\<close>, is strictly below the average density.
\<close>

theorem forearm_density_below_average:
  assumes "0 < total_mass" and "0 < total_volume"
    and "divide_total_mass total_mass meshes total_volume = Inr average_density"
    and "0 < fraction" and "fraction < 1"
    and "is_forearm name"
  shows "average_density = Fin (total_mass / total_volume) \<and>
         0 < total_mass / total_volume \<and>
         assign_density fraction average_density other_links_proportion name =
           Fin ((1 - fraction) * (total_mass / total_volume)) \<and>
         (1 - fraction) * (total_mass / total_volume) < total_mass / total_volume"
proof -
  have T0: "total_volume \<noteq> 0" using assms(2) by simp
  have a: "average_density = Fin (total_mass / total_volume)"
    using assms(3) T0 by (auto simp: divide_total_mass_def py_div_def split: if_splits)
  have pos: "0 < total_mass / total_volume" using assms(1,2) by simp
  have "(1 - fraction) * (total_mass / total_volume) < 1 * (total_mass / total_volume)"
    using assms(4) pos by (intro mult_strict_right_mono) auto
  then have lt: "(1 - fraction) * (total_mass / total_volume) < total_mass / total_volume"
    by simp
  have d: "assign_density fraction average_density other_links_proportion name =
           Fin ((1 - fraction) * (total_mass / total_volume))"
    using assms(6) by (simp add: assign_density_def a)
  from a pos d lt show ?thesis by (intro conjI)
qed

theorem forearm_density_below_average_witness:
  "(0::rat) < 21 / 5 \<and> (0::rat) < 19 / 10 \<and>
   divide_total_mass (21 / 5) hand_meshes (19 / 10) = Inr (Fin (42 / 19)) \<and>
   0 < forearm_mass_redistribute_percentage \<and> forearm_mass_redistribute_percentage < 1 \<and>
   is_forearm ''forearm'' \<and>
   assign_density forearm_mass_redistribute_percentage (Fin (42 / 19)) (Fin (9 / 19)) ''forearm'' =
     Fin (21 / 19) \<and>
   (21 / 19 :: rat) < 42 / 19"
proof -
  have h1: "(0::rat) < 21 / 5" and h2: "(0::rat) < 19 / 10" by simp_all
  have h3: "divide_total_mass (21 / 5) hand_meshes (19 / 10) = Inr (Fin (42 / 19))"
    by (simp add: divide_total_mass_def hand_meshes_def)
  have h4: "0 < forearm_mass_redistribute_percentage"
    and h5: "forearm_mass_redistribute_percentage < 1"
    by (simp_all add: forearm_mass_redistribute_percentage_def)
  have h6: "is_forearm ''forearm''" by (simp add: is_forearm_def)
  show ?thesis
    using forearm_density_below_average [OF h1 h2 h3 h4 h5 h6, of "Fin (9 / 19)"] h3 h4 h5 h6
    by (simp add: forearm_mass_redistribute_percentage_def)
qed

text \<open>
  C1, as amended. When exactly one link is forearm-named and that link is not
  finger- or knuckle-named, the total volume is positive and the proportion of the other
  links is positive, the total mass summed again from the link masses the density loop
  has stored (four times for the finger- and knuckle-named links) is the target mass,
  exactly.
\<close>

theorem mass_conservation:
  assumes keys: "distinct (map fst meshes)"
    and vol: "volume_loop meshes 0 None w = (total_volume, Some forearm_volume, w')"
    and one: "filter is_forearm (map fst meshes) = [fa]"
    and nrep: "\<not> is_repeated fa"
    and Tpos: "0 < total_volume"
    and olpos: "0 < 1 - forearm_volume / total_volume"
  shows "total_mass_loop (map fst meshes)
           (fst (estimate_loop forearm_mass_redistribute_percentage
                   (np_div (Fin total_mass) (Fin total_volume))
                   (np_sub (Fin 1) (np_div (Fin forearm_volume) (Fin total_volume)))
                   meshes ([], [], [])))
           (Fin 0) = Inr (Fin total_mass)"
proof -
  let ?f = forearm_mass_redistribute_percentage
  let ?a = "total_mass / total_volume"
  let ?ol = "1 - forearm_volume / total_volume"
  let ?w = "\<lambda>p::string \<times> mesh. link_weight (fst p) * volume (snd p)"
  have T0: "total_volume \<noteq> 0" using Tpos by simp
  have avg: "np_div (Fin total_mass) (Fin total_volume) = Fin ?a" using T0 by simp
  have other: "np_sub (Fin 1) (np_div (Fin forearm_volume) (Fin total_volume)) = Fin ?ol"
    using T0 by (simp add: np_sub_def)
  obtain fm where fm: "filter (\<lambda>p. is_forearm (fst p)) meshes = [(fa, fm)]"
    using single_forearm[OF one] by blast
  have T: "total_volume = (\<Sum>p\<leftarrow>meshes. ?w p)"
    and fv: "last_forearm meshes None = Some forearm_volume"
    using vol by (simp_all add: volume_loop_eq)
  have fv': "forearm_volume = volume fm" using fv by (simp add: last_forearm_def fm)
  have WF: "(\<Sum>p\<leftarrow>filter (\<lambda>p. is_forearm (fst p)) meshes. ?w p) = forearm_volume"
    using nrep by (simp add: fm fv' link_weight_def)
  have WO: "(\<Sum>p\<leftarrow>filter (\<lambda>p. \<not> is_forearm (fst p)) meshes. ?w p) = total_volume - forearm_volume"
    using sum_list_split_filter[of ?w meshes "\<lambda>p. is_forearm (fst p)"] WF T by simp
  have ne: "?ol \<noteq> 0" using olpos by linarith
  have dens: "assign_density ?f (Fin ?a) (Fin ?ol) n = Fin (assigned ?f ?a ?ol n)" for n
    by (rule assign_density_assigned[OF disjI1[OF ne]])
  have est: "fst (estimate_loop ?f (Fin ?a) (Fin ?ol) meshes ([], [], [])) =
     map (\<lambda>(n, m). (n, Fin (assigned ?f ?a ?ol n * volume m))) meshes"
    by (simp add: estimate_loop_result[OF keys] dens)
  have "total_mass_loop (map fst meshes)
          (map (\<lambda>(n, m). (n, Fin (assigned ?f ?a ?ol n * volume m))) meshes) (Fin 0) =
        Inr (Fin (\<Sum>p\<leftarrow>meshes. link_weight (fst p) * (assigned ?f ?a ?ol (fst p) * volume (snd p))))"
    using total_mass_loop_tagged[OF keys, of "\<lambda>n m. assigned ?f ?a ?ol n * volume m" 0] by simp
  also have "(\<Sum>p\<leftarrow>meshes. link_weight (fst p) * (assigned ?f ?a ?ol (fst p) * volume (snd p))) = total_mass"
    unfolding redistributed_sum WF WO forearm_mass_redistribute_percentage_def
    by (rule conservation_algebra[OF Tpos olpos])
  finally show ?thesis unfolding avg other est .
qed

theorem mass_conservation_witness:
  "distinct (map fst hand_meshes) \<and>
   fst (volume_loop hand_meshes 0 None sample_world) = 19 / 10 \<and>
   fst (snd (volume_loop hand_meshes 0 None sample_world)) = Some 1 \<and>
   filter is_forearm (map fst hand_meshes) = [''forearm''] \<and>
   \<not> is_repeated ''forearm'' \<and>
   total_mass_loop (map fst hand_meshes)
     (fst (estimate_loop forearm_mass_redistribute_percentage
             (np_div (Fin (21 / 5)) (Fin (19 / 10)))
             (np_sub (Fin 1) (np_div (Fin 1) (Fin (19 / 10))))
             hand_meshes ([], [], [])))
     (Fin 0) = Inr (Fin (21 / 5))"
proof -
  have h1: "distinct (map fst hand_meshes)" by (simp add: hand_meshes_def)
  have a: "fst (volume_loop hand_meshes 0 None sample_world) = 19 / 10" by code_simp
  have b: "fst (snd (volume_loop hand_meshes 0 None sample_world)) = Some 1" by code_simp
  have h2: "volume_loop hand_meshes 0 None sample_world =
              (19 / 10, Some 1, snd (snd (volume_loop hand_meshes 0 None sample_world)))"
    using a b by (simp add: prod_eq_iff)
  have h3: "filter is_forearm (map fst hand_meshes) = [''forearm'']"
    by (simp add: hand_meshes_def is_forearm_def)
  have h4: "\<not> is_repeated ''forearm''" by (simp add: is_repeated_def)
  have h5: "(0::rat) < 19 / 10" and h6: "(0::rat) < 1 - 1 / (19 / 10)" by simp_all
  show ?thesis
    using mass_conservation [OF h1 h2 h3 h4 h5 h6, of "21 / 5"] h1 a b h3 h4 by blast
qed

text \<open>
  C1 as first stated fails. With a single forearm-named link that is also knuckle-named
  (volume 1, counted four times) and a palm (volume 1) the total volume is 5, the
  proportion of the other links is 4/5, and the masses sum to 21/8 for a target of 21/5.
  With two forearm-named links of volume 1 the total volume is 2, the proportion of the
  other links is 1/2, and the masses sum to 21/10.
\<close>

theorem mass_conservation_counterexample:
  "fst (volume_loop knuckle_meshes 0 None sample_world) = 5 \<and>
   fst (snd (volume_loop knuckle_meshes 0 None sample_world)) = Some 1 \<and>
   (0::rat) < 5 \<and> (0::rat) < 1 - 1 / 5 \<and>
   fst (estimate_loop forearm_mass_redistribute_percentage
          (np_div (Fin (21 / 5)) (Fin 5)) (np_sub (Fin 1) (np_div (Fin 1) (Fin 5)))
          knuckle_meshes ([], [], [])) =
     [(''forearm_knuckle'', Fin (21 / 50)), (''palm'', Fin (189 / 200))] \<and>
   total_mass_loop (map fst knuckle_meshes)
     [(''forearm_knuckle'', Fin (21 / 50)), (''palm'', Fin (189 / 200))] (Fin 0) =
     Inr (Fin (21 / 8)) \<and>
   fst (volume_loop two_forearm_meshes 0 None sample_world) = 2 \<and>
   fst (snd (volume_loop two_forearm_meshes 0 None sample_world)) = Some 1 \<and>
   (0::rat) < 2 \<and> (0::rat) < 1 - 1 / 2 \<and>
   fst (estimate_loop forearm_mass_redistribute_percentage
          (np_div (Fin (21 / 5)) (Fin 2)) (np_sub (Fin 1) (np_div (Fin 1) (Fin 2)))
          two_forearm_meshes ([], [], [])) =
     [(''forearm'', Fin (21 / 20)), (''forearm2'', Fin (21 / 20))] \<and>
   total_mass_loop (map fst two_forearm_meshes)
     [(''forearm'', Fin (21 / 20)), (''forearm2'', Fin (21 / 20))] (Fin 0) =
     Inr (Fin (21 / 10))"
  by code_simp

text \<open>
  C4. When no file of the mesh directory gives a forearm-named link, the run ends with an
  exception and the files are left as they were. Where the mass argument and the loading
  succeed and a mesh has been loaded, the exception is the unbound
  \<^verbatim>\<open>forearm_volume\<close> of line 63, raised once the average density has been printed and
  before any of the later divisions.
\<close>

theorem missing_forearm_fails:
  assumes dir: "listdir e (visual_mesh_dir e) = Some names"
    and none: "\<forall>b \<in> set names. \<not> is_forearm (fst (splitext b))"
  shows "(\<exists>err. fst (main e w0) = Inl err) \<and> files (snd (main e w0)) = files w0 \<and>
         (\<forall>total_mass meshes.
            read_total_mass (py_float e) (argv e) = Inr (Some total_mass) \<and>
            load_visual_meshes e = Inr meshes \<and>
            meshes \<noteq> [] \<longrightarrow>
            main e w0 =
              (Inl UnboundLocalError,
               after ([Estimating total_mass] @ volume_lines meshes @
                      [AverageDensityEstimate
                         (np_div (Fin total_mass)
                            (Fin (fst (volume_loop meshes 0 None
                                         (print (Estimating total_mass) w0)))))])
                 None w0))"
proof -
  have nf: "last_forearm ms None = None" if "load_visual_meshes e = Inr ms" for ms
  proof -
    from that have "load_meshes (trimesh_load e) (visual_mesh_dir e) (sort names) [] = Inr ms"
      by (simp add: load_visual_meshes_def dir)
    from load_meshes_key_set[OF this] have "fst ` set ms = (\<lambda>b. fst (splitext b)) ` set names"
      by simp
    with none show ?thesis by (intro no_forearm_last) auto
  qed
  have run: "main e w0 =
      (case read_total_mass (py_float e) (argv e) of
         Inl err \<Rightarrow> (Inl err, w0)
       | Inr None \<Rightarrow> (Inl (SystemExit 1), after [ErrorTotalMassPositive] None w0)
       | Inr (Some tm) \<Rightarrow>
          (case load_visual_meshes e of
             Inl err \<Rightarrow> (Inl err, after [Estimating tm] None w0)
           | Inr ms \<Rightarrow>
              (case divide_total_mass tm ms (\<Sum>p\<leftarrow>ms. link_weight (fst p) * volume (snd p)) of
                 Inl err \<Rightarrow> (Inl err, after ([Estimating tm] @ volume_lines ms) None w0)
               | Inr a \<Rightarrow> (Inl UnboundLocalError,
                    after ([Estimating tm] @ volume_lines ms @ [AverageDensityEstimate a]) None w0))))"
    by (auto simp: main_def Let_def estimate_and_export_no_forearm nf after_def print_def
          split: sum.splits option.splits)
  have a: "\<exists>err. fst (main e w0) = Inl err"
    unfolding run by (simp split: sum.splits option.splits)
  have b: "files (snd (main e w0)) = files w0"
    unfolding run by (simp add: files_after_None split: sum.splits option.splits)
  have c: "main e w0 =
              (Inl UnboundLocalError,
               after ([Estimating tm] @ volume_lines ms @
                      [AverageDensityEstimate
                         (np_div (Fin tm)
                            (Fin (fst (volume_loop ms 0 None (print (Estimating tm) w0)))))])
                 None w0)"
    if "read_total_mass (py_float e) (argv e) = Inr (Some tm)" "load_visual_meshes e = Inr ms"
       "ms \<noteq> []" for tm ms
    using that unfolding run by (simp add: volume_loop_eq divide_total_mass_def)
  from a b c show ?thesis by blast
qed

theorem missing_forearm_fails_witness:
  "listdir no_forearm_env (visual_mesh_dir no_forearm_env) = Some [''palm.dae'', ''fingerfoo.stl''] \<and>
   \<not> is_forearm (fst (splitext ''palm.dae'')) \<and>
   \<not> is_forearm (fst (splitext ''fingerfoo.stl'')) \<and>
   fst (main no_forearm_env sample_world) = Inl UnboundLocalError \<and>
   files (snd (main no_forearm_env sample_world)) = files sample_world"
proof -
  have h1: "listdir no_forearm_env (visual_mesh_dir no_forearm_env) =
              Some [''palm.dae'', ''fingerfoo.stl'']"
    by (simp add: no_forearm_env_def sample_env_def)
  have p: "\<not> is_forearm (fst (splitext ''palm.dae''))"
    and f: "\<not> is_forearm (fst (splitext ''fingerfoo.stl''))"
    by code_simp+
  have h2: "\<forall>b \<in> set [''palm.dae'', ''fingerfoo.stl'']. \<not> is_forearm (fst (splitext b))"
    using p f by simp
  have e: "fst (main no_forearm_env sample_world) = Inl UnboundLocalError"
    by code_simp
  from missing_forearm_fails [OF h1 h2, of sample_world]
  have "files (snd (main no_forearm_env sample_world)) = files sample_world" by blast
  with h1 p f e show ?thesis by blast
qed

text \<open>
  C5. A mass argument that \<^verbatim>\<open>float\<close> reads as zero or negative ends the run with exit
  status 1: the message is the only line printed, no file is touched, and the directory
  and the loader play no part in the result. Without an argument the total mass is 4.2
  and the run goes on with it.
\<close>

theorem mass_argument_boundary:
  "(1 < length (argv e) \<and> py_float e (argv e ! 1) = Some x \<and> x \<le> 0 \<longrightarrow>
      main e w0 = (Inl (SystemExit 1), w0\<lparr>stdout := stdout w0 @ [ErrorTotalMassPositive]\<rparr>)) \<and>
   (length (argv e) \<le> 1 \<longrightarrow>
      read_total_mass (py_float e) (argv e) = Inr (Some (42 / 10)) \<and>
      main e w0 =
        (case load_visual_meshes e of
           Inl err \<Rightarrow> (Inl err, print (Estimating (42 / 10)) w0)
         | Inr meshes \<Rightarrow> estimate_and_export (42 / 10) meshes (print (Estimating (42 / 10)) w0)))"
proof -
  have k: "(42 / 10 :: rat) = 21 / 5" by simp
  show ?thesis
    by (auto simp: main_def read_total_mass_def print_def Let_def k split: sum.splits)
qed

theorem mass_argument_boundary_witness:
  "1 < length (argv negative_mass_env) \<and>
   py_float negative_mass_env (argv negative_mass_env ! 1) = Some (- 1) \<and>
   (- 1 :: rat) \<le> 0 \<and>
   main negative_mass_env sample_world =
     (Inl (SystemExit 1), sample_world\<lparr>stdout := stdout sample_world @ [ErrorTotalMassPositive]\<rparr>) \<and>
   length (argv hand_env) \<le> 1 \<and>
   read_total_mass (py_float hand_env) (argv hand_env) = Inr (Some (42 / 10))"
proof -
  have h1: "1 < length (argv negative_mass_env)"
    by (simp add: negative_mass_env_def sample_env_def)
  have h2: "py_float negative_mass_env (argv negative_mass_env ! 1) = Some (- 1)"
    by (simp add: negative_mass_env_def sample_env_def sample_float_def)
  have h3: "(- 1 :: rat) \<le> 0" by simp
  have h4: "length (argv hand_env) \<le> 1"
    by (simp add: hand_env_def sample_env_def)
  from mass_argument_boundary [of negative_mass_env "- 1" sample_world] h1 h2 h3
  have a: "main negative_mass_env sample_world =
     (Inl (SystemExit 1), sample_world\<lparr>stdout := stdout sample_world @ [ErrorTotalMassPositive]\<rparr>)"
    by blast
  from mass_argument_boundary [of hand_env 0 sample_world] h4
  have b: "read_total_mass (py_float hand_env) (argv hand_env) = Inr (Some (42 / 10))"
    by blast
  from h1 h2 h3 a h4 b show ?thesis by blast
qed

text \<open>
  C6. A run that returns has written a document with exactly one model, named
  \<open>shadow_hand\<close>, whose links are, in order and by name, the entries of the dictionary of
  loaded meshes: as many links as meshes, each name once, whatever the name.
\<close>

theorem one_link_entry_per_mesh:
  assumes "main e w0 = (Inr (), w')"
  shows "\<exists>meshes mdl.
           load_visual_meshes e = Inr meshes \<and>
           files w' output_file = Some \<lparr>models = [mdl]\<rparr> \<and>
           model_name mdl = ''shadow_hand'' \<and>
           map link_name (links mdl) = map fst meshes \<and>
           length (links mdl) = length meshes \<and>
           distinct (map link_name (links mdl))"
proof -
  from main_success[OF assms] obtain meshes props mdl where a: "load_visual_meshes e = Inr meshes"
    and b: "links_loop (map fst meshes) props first_model = Inr mdl"
    and c: "files w' = (files w0)(output_file \<mapsto> \<lparr>models = [mdl]\<rparr>)"
    by blast
  from links_loop_names[OF b] have n: "map link_name (links mdl) = map fst meshes"
    and mn: "model_name mdl = ''shadow_hand''"
    by (simp_all add: first_model_def)
  from n have "length (map link_name (links mdl)) = length (map fst meshes)" by simp
  then have l: "length (links mdl) = length meshes" by simp
  have d: "distinct (map link_name (links mdl))"
    using load_visual_meshes_distinct[OF a] by (simp add: n)
  from a c n mn l d show ?thesis by auto
qed

theorem one_link_entry_per_mesh_witness:
  "main hand_env sample_world = (Inr (), snd (main hand_env sample_world)) \<and>
   map fst (projr (load_visual_meshes hand_env)) = [''fingerfoo'', ''forearm'', ''palm''] \<and>
   (\<exists>meshes mdl.
      load_visual_meshes hand_env = Inr meshes \<and>
      files (snd (main hand_env sample_world)) output_file = Some \<lparr>models = [mdl]\<rparr> \<and>
      model_name mdl = ''shadow_hand'' \<and>
      map link_name (links mdl) = map fst meshes \<and>
      length (links mdl) = length meshes \<and>
      distinct (map link_name (links mdl)))"
  (is "?A \<and> ?B \<and> ?C")
proof -
  have "fst (main hand_env sample_world) = Inr ()" by code_simp
  then have a: ?A by (simp add: prod_eq_iff)
  have b: ?B by code_simp
  have c: ?C by (rule one_link_entry_per_mesh [OF a])
  from a b c show ?thesis by (intro conjI)
qed

text \<open>
  C7. The document written by a run that returns holds, for every loaded mesh and in
  order, a link that carries the name, the mass of the mesh at the density assigned to
  it, the entries [0][0], [1][1], [2][2], [0][1], [0][2] and [1][2] of its moment of
  inertia at that density as \<open>ixx\<close>, \<open>iyy\<close>, \<open>izz\<close>, \<open>ixy\<close>, \<open>ixz\<close> and \<open>iyz\<close>, and a pose made of
  its centre of mass followed by three zeros. The density is the one lines 72 to 75
  compute from the total mass, the total volume and the forearm volume of the run.
\<close>

theorem link_entry_contents:
  assumes "main e w0 = (Inr (), w')"
  shows "\<exists>total_mass meshes total_volume forearm_volume w2.
     read_total_mass (py_float e) (argv e) = Inr (Some total_mass) \<and>
     load_visual_meshes e = Inr meshes \<and>
     volume_loop meshes 0 None (print (Estimating total_mass) w0) =
       (total_volume, Some forearm_volume, w2) \<and>
     files w' output_file =
       Some \<lparr>models =
         [\<lparr>model_name = ''shadow_hand'',
           links =
             map (\<lambda>(name, m).
                    let m' = m\<lparr>density :=
                               assign_density forearm_mass_redistribute_percentage
                                 (np_div (Fin total_mass) (Fin total_volume))
                                 (np_sub (Fin 1)
                                    (np_div (Fin forearm_volume) (Fin total_volume)))
                                 name\<rparr>
                    in \<lparr>link_name = name,
                        link_mass = mesh_mass m',
                        ixx = at0 (at0 (moment_inertia m')),
                        iyy = at1 (at1 (moment_inertia m')),
                        izz = at2 (at2 (moment_inertia m')),
                        ixy = at1 (at0 (moment_inertia m')),
                        ixz = at2 (at0 (moment_inertia m')),
                        iyz = at2 (at1 (moment_inertia m')),
                        inertial_pose =
                          [at0 (center_mass m'), at1 (center_mass m'), at2 (center_mass m'),
                           Fin 0, Fin 0, Fin 0]\<rparr>)
                 meshes\<rparr>]\<rparr>"
proof (rule main_success_stages[OF assms])
  fix tm ms fv mdl
  assume tm: "read_total_mass (py_float e) (argv e) = Inr (Some tm)"
    and ms: "load_visual_meshes e = Inr ms"
    and "ms \<noteq> []"
    and fv: "last_forearm ms None = Some fv"
    and ll: "links_loop (map fst ms)
       (estimate_loop forearm_mass_redistribute_percentage
          (np_div (Fin tm) (Fin (\<Sum>p\<leftarrow>ms. link_weight (fst p) * volume (snd p))))
          (np_sub (Fin 1)
             (np_div (Fin fv) (Fin (\<Sum>p\<leftarrow>ms. link_weight (fst p) * volume (snd p)))))
          ms ([], [], []))
       first_model = Inr mdl"
    and fw: "files w' = (files w0)(output_file \<mapsto> \<lparr>models = [mdl]\<rparr>)"
  define T where "T = (\<Sum>p\<leftarrow>ms. link_weight (fst p) * volume (snd p))"
  define d where "d n = assign_density forearm_mass_redistribute_percentage
                          (np_div (Fin tm) (Fin T)) (np_sub (Fin 1) (np_div (Fin fv) (Fin T))) n"
    for n
  let ?gm = "\<lambda>n m. np_mul (d n) (Fin (volume m))"
  let ?gi = "\<lambda>n (m::mesh). inertia_at m (d n)"
  let ?gc = "\<lambda>(n::string) (m::mesh). center_mass m"
  let ?entry = "\<lambda>n m. create_link
               \<lparr>link_mass := ?gm n m,
                ixx := at0 (at0 (?gi n m)), iyy := at1 (at1 (?gi n m)), izz := at2 (at2 (?gi n m)),
                ixy := at1 (at0 (?gi n m)), ixz := at2 (at0 (?gi n m)), iyz := at2 (at1 (?gi n m)),
                inertial_pose := [at0 (?gc n m), at1 (?gc n m), at2 (?gc n m), Fin 0, Fin 0, Fin 0]\<rparr>"
  let ?props = "(map (\<lambda>(n, m). (n, ?gm n m)) ms, map (\<lambda>(n, m). (n, ?gi n m)) ms,
                 map (\<lambda>(n, m). (n, ?gc n m)) ms)"
  have keys: "distinct (map fst ms)" by (rule load_visual_meshes_distinct[OF ms])
  have vol: "volume_loop ms 0 None (print (Estimating tm) w0) =
               (T, Some fv, snd (snd (volume_loop ms 0 None (print (Estimating tm) w0))))"
    by (simp add: volume_loop_eq T_def fv)
  have props: "estimate_loop forearm_mass_redistribute_percentage
                 (np_div (Fin tm) (Fin T)) (np_sub (Fin 1) (np_div (Fin fv) (Fin T)))
                 ms ([], [], []) = ?props"
    by (simp add: estimate_loop_result[OF keys] d_def)
  have ll': "links_loop (map fst ms) ?props first_model = Inr mdl"
    using ll unfolding T_def[symmetric] props .
  from links_loop_Inr[OF ll'] have
    mdl: "mdl = first_model\<lparr>links := links first_model @
            map (\<lambda>k. (projr (make_link ?props k))\<lparr>link_name := k\<rparr>) (map fst ms)\<rparr>"
    and ok: "\<forall>k \<in> set (map fst ms). \<not> isl (make_link ?props k)"
    by simp_all
  have "map (\<lambda>k. (projr (make_link ?props k))\<lparr>link_name := k\<rparr>) (map fst ms) =
        map (\<lambda>p. (projr (make_link ?props (fst p)))\<lparr>link_name := fst p\<rparr>) ms"
    by (simp add: comp_def)
  also have "\<dots> = map (\<lambda>(n, m). (?entry n m)\<lparr>link_name := n\<rparr>) ms"
  proof (rule map_cong[OF refl])
    fix p assume p: "p \<in> set ms"
    obtain n m where nm: "p = (n, m)" by (cases p)
    have "\<not> isl (make_link ?props n)" using ok p nm by force
    moreover have "make_link ?props n =
        (if mass_accepted (?gm n m) then Inr (?entry n m) else Inl AssertionError)"
      using make_link_tagged[OF keys, of n m ?gm ?gi ?gc] p nm by simp
    ultimately have "make_link ?props n = Inr (?entry n m)"
      by (cases "mass_accepted (?gm n m)") simp_all
    then show "(projr (make_link ?props (fst p)))\<lparr>link_name := fst p\<rparr> =
               (case p of (n, m) \<Rightarrow> (?entry n m)\<lparr>link_name := n\<rparr>)"
      by (simp add: nm)
  qed
  finally have e: "map (\<lambda>k. (projr (make_link ?props k))\<lparr>link_name := k\<rparr>) (map fst ms) =
      map (\<lambda>(n, m). (?entry n m)\<lparr>link_name := n\<rparr>) ms" .
  have doc: "files w' output_file =
       Some \<lparr>models =
         [\<lparr>model_name = ''shadow_hand'',
           links =
             map (\<lambda>(name, m).
                    let m' = m\<lparr>density := d name\<rparr>
                    in \<lparr>link_name = name,
                        link_mass = mesh_mass m',
                        ixx = at0 (at0 (moment_inertia m')),
                        iyy = at1 (at1 (moment_inertia m')),
                        izz = at2 (at2 (moment_inertia m')),
                        ixy = at1 (at0 (moment_inertia m')),
                        ixz = at2 (at0 (moment_inertia m')),
                        iyz = at2 (at1 (moment_inertia m')),
                        inertial_pose =
                          [at0 (center_mass m'), at1 (center_mass m'), at2 (center_mass m'),
                           Fin 0, Fin 0, Fin 0]\<rparr>)
                 ms\<rparr>]\<rparr>"
    unfolding fw mdl e
    by (simp add: first_model_def create_link_def mesh_mass_def moment_inertia_def Let_def)
  show ?thesis
    apply (rule exI[of _ tm], rule exI[of _ ms], rule exI[of _ T], rule exI[of _ fv])
    apply (rule exI[of _ "snd (snd (volume_loop ms 0 None (print (Estimating tm) w0)))"])
    using tm ms vol doc unfolding d_def by (intro conjI)
qed

theorem link_entry_contents_witness:
  "main hand_env sample_world = (Inr (), snd (main hand_env sample_world)) \<and>
   links (hd (models (the (files (snd (main hand_env sample_world)) output_file)))) ! 1 =
     \<lparr>link_name = ''forearm'', link_mass = Fin (21 / 19),
      ixx = Fin (231 / 19), iyy = Fin (462 / 19), izz = Fin (693 / 19),
      ixy = Fin (252 / 19), ixz = Fin (273 / 19), iyz = Fin (483 / 19),
      inertial_pose = [Fin 1, Fin 2, Fin 3, Fin 0, Fin 0, Fin 0]\<rparr> \<and>
   (\<exists>total_mass meshes total_volume forearm_volume w2.
     read_total_mass (py_float hand_env) (argv hand_env) = Inr (Some total_mass) \<and>
     load_visual_meshes hand_env = Inr meshes \<and>
     volume_loop meshes 0 None (print (Estimating total_mass) sample_world) =
       (total_volume, Some forearm_volume, w2) \<and>
     files (snd (main hand_env sample_world)) output_file =
       Some \<lparr>models =
         [\<lparr>model_name = ''shadow_hand'',
           links =
             map (\<lambda>(name, m).
                    let m' = m\<lparr>density :=
                               assign_density forearm_mass_redistribute_percentage
                                 (np_div (Fin total_mass) (Fin total_volume))
                                 (np_sub (Fin 1)
                                    (np_div (Fin forearm_volume) (Fin total_volume)))
                                 name\<rparr>
                    in \<lparr>link_name = name,
                        link_mass = mesh_mass m',
                        ixx = at0 (at0 (moment_inertia m')),
                        iyy = at1 (at1 (moment_inertia m')),
                        izz = at2 (at2 (moment_inertia m')),
                        ixy = at1 (at0 (moment_inertia m')),
                        ixz = at2 (at0 (moment_inertia m')),
                        iyz = at2 (at1 (moment_inertia m')),
                        inertial_pose =
                          [at0 (center_mass m'), at1 (center_mass m'), at2 (center_mass m'),
                           Fin 0, Fin 0, Fin 0]\<rparr>)
                 meshes\<rparr>]\<rparr>)"
  (is "?A \<and> ?B \<and> ?C")
proof -
  have "fst (main hand_env sample_world) = Inr ()" by code_simp
  then have a: ?A by (simp add: prod_eq_iff)
  have b: ?B by code_simp
  have c: ?C by (rule link_entry_contents [OF a])
  from a b c show ?thesis by (intro conjI)
qed

text \<open>
  C8. A run either fails and leaves every file as it was, or returns and has written the
  one output file, whose single model has a link for every loaded mesh. Writing the file
  is taken to be one step.
\<close>

theorem output_all_or_nothing:
  "case fst (main e w0) of
     Inl err \<Rightarrow> files (snd (main e w0)) = files w0
   | Inr u \<Rightarrow>
       \<exists>meshes mdl.
         load_visual_meshes e = Inr meshes \<and>
         files (snd (main e w0)) = (files w0)(output_file \<mapsto> \<lparr>models = [mdl]\<rparr>) \<and>
         map link_name (links mdl) = map fst meshes"
proof (cases "fst (main e w0)")
  case (Inl err)
  then have "main e w0 = (Inl err, snd (main e w0))" by (simp add: prod_eq_iff)
  from main_failure[OF this] show ?thesis by (simp add: Inl)
next
  case (Inr u)
  then have "main e w0 = (Inr (), snd (main e w0))" by (simp add: prod_eq_iff)
  from main_success[OF this] obtain meshes props mdl where a: "load_visual_meshes e = Inr meshes"
    and b: "links_loop (map fst meshes) props first_model = Inr mdl"
    and c: "files (snd (main e w0)) = (files w0)(output_file \<mapsto> \<lparr>models = [mdl]\<rparr>)"
    by blast
  from links_loop_names[OF b] have "map link_name (links mdl) = map fst meshes"
    by (simp add: first_model_def)
  with a c show ?thesis by (auto simp: Inr)
qed

theorem output_all_or_nothing_witness:
  "(\<exists>meshes mdl.
      load_visual_meshes hand_env = Inr meshes \<and>
      files (snd (main hand_env used_world)) =
        (files used_world)(output_file \<mapsto> \<lparr>models = [mdl]\<rparr>) \<and>
      map link_name (links mdl) = map fst meshes) \<and>
   files (snd (main no_forearm_env used_world)) = files used_world"
  (is "?A \<and> ?B")
proof -
  have f1: "fst (main hand_env used_world) = Inr ()" by code_simp
  have f2: "fst (main no_forearm_env used_world) = Inl UnboundLocalError" by code_simp
  have a: ?A
    using output_all_or_nothing [of hand_env used_world] unfolding f1 by simp
  have b: ?B
    using output_all_or_nothing [of no_forearm_env used_world] unfolding f2 by simp
  from a b show ?thesis by (intro conjI)
qed

text \<open>
  C9. Two runs with the same arguments, the same mesh directory holding the same file
  names (in whatever order the system lists them) and the same meshes end alike, whatever
  the console and the files held before: the same outcome, the same lines printed and,
  when they return, the same document in the output file.
\<close>

theorem run_deterministic:
  assumes "argv e1 = argv e2" and "py_float e1 = py_float e2"
    and "visual_mesh_dir e1 = visual_mesh_dir e2" and "trimesh_load e1 = trimesh_load e2"
    and "rel_option (\<lambda>a b. mset a = mset b)
           (listdir e1 (visual_mesh_dir e1)) (listdir e2 (visual_mesh_dir e2))"
  shows "fst (main e1 w1) = fst (main e2 w2) \<and>
         drop (length (stdout w1)) (stdout (snd (main e1 w1))) =
           drop (length (stdout w2)) (stdout (snd (main e2 w2))) \<and>
         (fst (main e1 w1) = Inr () \<longrightarrow>
            files (snd (main e1 w1)) output_file = files (snd (main e2 w2)) output_file)"
proof -
  have same: "main e1 w = main e2 w" for w
    by (rule main_cong[OF assms(1,2) load_visual_meshes_cong[OF assms(3,4,5)]])
  from main_effect[of e2] obtain r out d where m: "\<And>w. main e2 w = (r, after out d w)"
    and c: "case r of
        Inl err \<Rightarrow> d = None
      | Inr u \<Rightarrow> \<exists>meshes props mdl. load_visual_meshes e2 = Inr meshes \<and>
                   links_loop (map fst meshes) props first_model = Inr mdl \<and>
                   d = Some \<lparr>models = [mdl]\<rparr>"
    by blast
  have r1: "main e1 w1 = (r, after out d w1)" and r2: "main e2 w2 = (r, after out d w2)"
    by (simp_all add: same m)
  have o1: "drop (length (stdout w1)) (stdout (after out d w1)) = out"
    and o2: "drop (length (stdout w2)) (stdout (after out d w2)) = out"
    by (simp_all add: after_def)
  have f: "files (after out d w1) output_file = files (after out d w2) output_file"
    if "r = Inr ()"
  proof -
    from c that obtain doc where "d = Some doc" by auto
    then show ?thesis by (simp add: after_def)
  qed
  have a: "fst (main e1 w1) = fst (main e2 w2)" by (simp add: r1 r2)
  have b: "drop (length (stdout w1)) (stdout (snd (main e1 w1))) =
           drop (length (stdout w2)) (stdout (snd (main e2 w2)))"
    by (simp only: r1 r2 snd_conv o1 o2)
  have c': "fst (main e1 w1) = Inr () \<longrightarrow>
            files (snd (main e1 w1)) output_file = files (snd (main e2 w2)) output_file"
    using f by (simp only: r1 r2 fst_conv snd_conv) blast
  from a b c' show ?thesis by blast
qed

theorem run_deterministic_witness:
  "argv hand_env = argv shuffled_env \<and>
   py_float hand_env = py_float shuffled_env \<and>
   visual_mesh_dir hand_env = visual_mesh_dir shuffled_env \<and>
   trimesh_load hand_env = trimesh_load shuffled_env \<and>
   rel_option (\<lambda>a b. mset a = mset b)
     (listdir hand_env (visual_mesh_dir hand_env))
     (listdir shuffled_env (visual_mesh_dir shuffled_env)) \<and>
   listdir shuffled_env (visual_mesh_dir shuffled_env) =
     Some [''fingerfoo.stl'', ''forearm.dae'', ''palm.dae''] \<and>
   listdir hand_env (visual_mesh_dir hand_env) =
     Some [''palm.dae'', ''forearm.dae'', ''fingerfoo.stl''] \<and>
   fst (main hand_env sample_world) = fst (main shuffled_env used_world) \<and>
   drop (length (stdout sample_world)) (stdout (snd (main hand_env sample_world))) =
     drop (length (stdout used_world)) (stdout (snd (main shuffled_env used_world))) \<and>
   fst (main hand_env sample_world) = Inr () \<and>
   files (snd (main hand_env sample_world)) output_file =
     files (snd (main shuffled_env used_world)) output_file"
proof -
  have ok: "fst (main hand_env sample_world) = Inr ()" by code_simp
  have h1: "argv hand_env = argv shuffled_env"
    and h2: "py_float hand_env = py_float shuffled_env"
    and h3: "visual_mesh_dir hand_env = visual_mesh_dir shuffled_env"
    and h4: "trimesh_load hand_env = trimesh_load shuffled_env"
    by (simp_all add: shuffled_env_def)
  have l1: "listdir hand_env (visual_mesh_dir hand_env) =
              Some [''palm.dae'', ''forearm.dae'', ''fingerfoo.stl'']"
    by (simp add: hand_env_def sample_env_def hand_dir_def)
  have l2: "listdir shuffled_env (visual_mesh_dir shuffled_env) =
              Some [''fingerfoo.stl'', ''forearm.dae'', ''palm.dae'']"
    by (simp add: shuffled_env_def hand_env_def sample_env_def hand_dir_def)
  have h5: "rel_option (\<lambda>a b. mset a = mset b)
     (listdir hand_env (visual_mesh_dir hand_env))
     (listdir shuffled_env (visual_mesh_dir shuffled_env))"
    unfolding l1 l2 by (simp add: add.commute)
  from run_deterministic [OF h1 h2 h3 h4 h5, of sample_world used_world] h1 h2 h3 h4 h5 l1 l2 ok
  show ?thesis by blast
qed

text \<open>
  C10, as amended. When one or more links are forearm-named, \<^verbatim>\<open>forearm_volume\<close> ends
  as the volume of the forearm-named entry that comes last in the iteration order of the
  dictionary of meshes, and every forearm-named link is assigned the reduced density.
  Where the link names stand in sorted order in the dictionary, that last entry has the
  greatest of the forearm names.
\<close>

theorem forearm_volume_last_match:
  assumes "filter (\<lambda>p. is_forearm (fst p)) meshes \<noteq> []"
  shows "fst (snd (volume_loop meshes total_volume forearm_volume w)) =
           Some (volume (snd (last (filter (\<lambda>p. is_forearm (fst p)) meshes)))) \<and>
         (\<forall>name \<in> fst ` set meshes. is_forearm name \<longrightarrow>
            assign_density fraction average_density other_links_proportion name =
              np_mul (Fin (1 - fraction)) average_density) \<and>
         (sorted (map fst meshes) \<longrightarrow>
            (\<forall>name \<in> fst ` set meshes. is_forearm name \<longrightarrow>
               name \<le> fst (last (filter (\<lambda>p. is_forearm (fst p)) meshes))))"
proof -
  let ?F = "filter (\<lambda>p. is_forearm (fst p)) meshes"
  have a: "fst (snd (volume_loop meshes total_volume forearm_volume w)) =
           Some (volume (snd (last ?F)))"
    using assms by (simp add: volume_loop_eq last_forearm_def split: list.splits)
  have b: "\<forall>name \<in> fst ` set meshes. is_forearm name \<longrightarrow>
            assign_density fraction average_density other_links_proportion name =
              np_mul (Fin (1 - fraction)) average_density"
    by (simp add: assign_density_def)
  have c: "name \<le> fst (last ?F)"
    if srt: "sorted (map fst meshes)" and mem: "name \<in> fst ` set meshes" and fa: "is_forearm name"
    for name
  proof -
    have "sorted (map fst ?F)" using srt by (simp add: sorted_filter)
    moreover have "name \<in> set (map fst ?F)" using mem fa by force
    moreover have "map fst ?F \<noteq> []" using assms by simp
    ultimately have "name \<le> last (map fst ?F)"
      by (rule sorted_le_last)
    then show ?thesis using assms by (simp add: last_map)
  qed
  from a b c show ?thesis by blast
qed

theorem forearm_volume_last_match_witness:
  "filter (\<lambda>p. is_forearm (fst p)) left_right_meshes \<noteq> [] \<and>
   sorted (map fst left_right_meshes) \<and>
   fst (snd (volume_loop left_right_meshes 0 None sample_world)) = Some 3 \<and>
   assign_density forearm_mass_redistribute_percentage (Fin (21 / 30)) (Fin (1 / 2)) ''forearm_a'' =
     np_mul (Fin (1 - forearm_mass_redistribute_percentage)) (Fin (21 / 30)) \<and>
   ''forearm_a'' \<le> fst (last (filter (\<lambda>p. is_forearm (fst p)) left_right_meshes))"
  (is "?H \<and> ?S \<and> ?A \<and> ?B \<and> ?C")
proof -
  have fl: "filter (\<lambda>p. is_forearm (fst p)) left_right_meshes =
              [(''forearm_a'', sample_mesh 2), (''forearm_b'', sample_mesh 3)]"
    by (simp add: left_right_meshes_def is_forearm_def)
  have h: ?H by (simp add: fl)
  have s: ?S by code_simp
  have m: "''forearm_a'' \<in> fst ` set left_right_meshes"
    by (simp add: left_right_meshes_def)
  have fa: "is_forearm ''forearm_a''" by (simp add: is_forearm_def)
  note t = forearm_volume_last_match [OF h, of 0 None sample_world
             forearm_mass_redistribute_percentage "Fin (21 / 30)" "Fin (1 / 2)"]
  have a: ?A using t by (simp add: fl sample_mesh_def)
  have b: ?B using t m fa by blast
  have c: ?C using t s m fa by blast
  from h s a b c show ?thesis by (intro conjI)
qed

text \<open>
  C10 as first stated fails. For the files \<open>forearm.dae\<close> (volume 1) and
  \<open>forearm-left.dae\<close> (volume 2) the sorted file names give the links \<open>forearm-left\<close> and
  \<open>forearm\<close> in this order; the greatest forearm name is \<open>forearm-left\<close>, of volume 2, and
  \<^verbatim>\<open>forearm_volume\<close> ends as 1, the volume of \<open>forearm\<close>.
\<close>

theorem forearm_volume_last_match_counterexample:
  "\<not> isl (load_visual_meshes hyphen_env) \<and>
   map fst (projr (load_visual_meshes hyphen_env)) = [''forearm-left'', ''forearm''] \<and>
   map (volume \<circ> snd) (projr (load_visual_meshes hyphen_env)) = [2, 1] \<and>
   is_forearm ''forearm-left'' \<and> is_forearm ''forearm'' \<and>
   ''forearm'' < ''forearm-left'' \<and>
   fst (snd (volume_loop (projr (load_visual_meshes hyphen_env)) 0 None sample_world)) = Some 1"
  by code_simp

end
